theory Spec2Isabelle
  imports Complex_Main "HOL-Library.Sublist"
begin

section \<open>Strings\<close>

text \<open>
  A Python \<open>str\<close> is a sequence of Unicode code points, and every test the scripts make
  on a string (\<open>in\<close>, \<open>splitlines\<close>, \<open>strip\<close>, \<open>len\<close>) is a test on code points. A string
  is therefore modelled as the list of its code points.
\<close>

type_synonym ustr = "nat list"

definition of_ascii :: "string \<Rightarrow> ustr" where
  "of_ascii s = map of_char s"

text \<open>\<open>p in s\<close> on two strings: \<open>p\<close> occurs in \<open>s\<close> as a contiguous run.\<close>

definition str_in :: "ustr \<Rightarrow> ustr \<Rightarrow> bool" where
  "str_in p s = sublist p s"

text \<open>
  \<open>str.splitlines()\<close>: the line boundaries of Python are \<open>\n\<close>, \<open>\r\<close>, \<open>\r\n\<close>, \<open>\v\<close>,
  \<open>\f\<close>, \<open>\x1c\<close>, \<open>\x1d\<close>, \<open>\x1e\<close>, \<open>\x85\<close>, U+2028 and U+2029; the boundaries are
  not part of the lines, and a final boundary opens no further line.
\<close>

definition is_linebreak :: "nat \<Rightarrow> bool" where
  "is_linebreak c = (c \<in> {10, 11, 12, 13, 28, 29, 30, 133, 8232, 8233})"

fun splitlines_from :: "ustr \<Rightarrow> ustr \<Rightarrow> ustr list" where
  "splitlines_from cur [] = (if cur = [] then [] else [cur])"
| "splitlines_from cur [c] = (if is_linebreak c then [cur] else [cur @ [c]])"
| "splitlines_from cur (c # d # cs) =
     (if c = 13 \<and> d = 10 then cur # splitlines_from [] cs
      else if is_linebreak c then cur # splitlines_from [] (d # cs)
      else splitlines_from (cur @ [c]) (d # cs))"

definition splitlines :: "ustr \<Rightarrow> ustr list" where
  "splitlines s = splitlines_from [] s"

section \<open>nss_file_extractor_git.py\<close>

subsection \<open>The markers\<close>

definition TEXT_LABEL_MARK :: ustr where
  "TEXT_LABEL_MARK = of_ascii ''[text''"

definition VOICE_MARK :: ustr where
  "VOICE_MARK = of_ascii ''<voice''"

text \<open>U+300C, U+300D and U+3010: the corner brackets of a quotation and the left lenticular
  bracket of a name.\<close>

definition QUOTE_OPEN :: ustr where
  "QUOTE_OPEN = [12300]"

definition QUOTE_CLOSE :: ustr where
  "QUOTE_CLOSE = [12301]"

definition NAME_OPEN :: ustr where
  "NAME_OPEN = [12304]"

subsection \<open>The record of one block\<close>

text \<open>
  The dictionary \<open>ele\<close> of \<open>process_content\<close>, with its four keys \<open>"text label"\<close>, \<open>"Name"\<close>,
  \<open>"voice tag"\<close> and \<open>"text"\<close>. Python's \<open>None\<close> is \<open>None\<close>.
\<close>

record ele =
  ele_text_label :: "ustr option"
  ele_Name :: "ustr option list"
  ele_voice_tag :: "ustr option list"
  ele_text :: "ustr list"

definition new_ele :: ele where
  "new_ele = \<lparr>ele_text_label = None, ele_Name = [], ele_voice_tag = [], ele_text = []\<rparr>"

text \<open>The two guarded appends of \<open>None\<close> that precede the append of a new utterance.\<close>

definition pad_Name :: "ele \<Rightarrow> ele" where
  "pad_Name e =
     (if length (ele_Name e) \<noteq> length (ele_text e) + 1
      then e\<lparr>ele_Name := ele_Name e @ [None]\<rparr> else e)"

definition pad_voice_tag :: "ele \<Rightarrow> ele" where
  "pad_voice_tag e =
     (if length (ele_voice_tag e) \<noteq> length (ele_text e) + 1
      then e\<lparr>ele_voice_tag := ele_voice_tag e @ [None]\<rparr> else e)"

definition append_text :: "ustr \<Rightarrow> ele \<Rightarrow> ele" where
  "append_text line e = e\<lparr>ele_text := ele_text e @ [line]\<rparr>"

text \<open>The body of the loop over the lines of one block.\<close>

definition process_line :: "ele \<Rightarrow> ustr \<Rightarrow> ele" where
  "process_line e line =
     (if line \<noteq> [] then
        if str_in TEXT_LABEL_MARK line then e\<lparr>ele_text_label := Some line\<rparr>
        else if str_in QUOTE_OPEN line then
          append_text line (pad_voice_tag (pad_Name e))
        else if str_in NAME_OPEN line then e\<lparr>ele_Name := ele_Name e @ [Some line]\<rparr>
        else if str_in VOICE_MARK line then
          (let e1 = (if length (ele_Name e) \<noteq> length (ele_voice_tag e) + 1
                     then e\<lparr>ele_Name := ele_Name e @ [None]\<rparr> else e)
           in e1\<lparr>ele_voice_tag := ele_voice_tag e1 @ [Some line]\<rparr>)
        else
          if length (ele_text e) = 0 then append_text line e
          else if ele_text e \<noteq> [] \<and> str_in QUOTE_CLOSE (last (ele_text e)) then
            append_text line (pad_voice_tag (pad_Name e))
          else e\<lparr>ele_text := butlast (ele_text e) @ [last (ele_text e) @ [10] @ line]\<rparr>
      else e)"

definition process_lines :: "ustr list \<Rightarrow> ele" where
  "process_lines ls = foldl process_line new_ele ls"

definition process_entry :: "ustr \<Rightarrow> ele" where
  "process_entry entry = process_lines (splitlines entry)"

text \<open>
  \<open>re.findall\<close> with a pattern built from fixed delimiters and lazy \<open>.*?\<close> under
  \<open>re.DOTALL\<close>: the leftmost occurrence of each delimiter is taken in turn, the search
  goes on after the match, and it ends as soon as a delimiter no longer occurs.
  \<open>split_at_first p s\<close> cuts \<open>s\<close> around the leftmost occurrence of \<open>p\<close>.
\<close>

fun split_at_first :: "ustr \<Rightarrow> ustr \<Rightarrow> (ustr \<times> ustr) option" where
  "split_at_first p [] = (if p = [] then Some ([], []) else None)"
| "split_at_first p (x # xs) =
     (if prefix p (x # xs) then Some ([], drop (length p) (x # xs))
      else map_option (\<lambda>(b, a). (x # b, a)) (split_at_first p xs))"

text \<open>
  \<open>findall_lazy opener mid closer s\<close> is \<open>re.findall\<close> for the pattern
  \<open>opener .*? mid (.*?) closer\<close>. The patterns of the scripts have delimiters that are
  not empty; the function is not used for a pattern that matches the empty string.
\<close>

function findall_lazy :: "ustr \<Rightarrow> ustr \<Rightarrow> ustr \<Rightarrow> ustr \<Rightarrow> ustr list" where
  "findall_lazy opener mid closer s =
     (if opener = [] \<and> mid = [] \<and> closer = [] then []
      else
        (case split_at_first opener s of
           None \<Rightarrow> []
         | Some (skipped, r1) \<Rightarrow>
             (case split_at_first mid r1 of
                None \<Rightarrow> []
              | Some (attrs, r2) \<Rightarrow>
                  (case split_at_first closer r2 of
                     None \<Rightarrow> []
                   | Some (body, r3) \<Rightarrow> body # findall_lazy opener mid closer r3))))"
  by pat_completeness auto
termination
proof (relation "measure (\<lambda>(opener, mid, closer, s). length s)", goal_cases)
  case 1
  show ?case by simp
next
  case (2 opener mid closer s x2 skipped r1 x2a attrs r2 x2b body r3)
  have len: "length s = length b + length p + length a"
    if "split_at_first p s = Some (b, a)" for p s b a
    using that
  proof (induction s arbitrary: b)
    case Nil
    then show ?case by (auto split: if_splits)
  next
    case (Cons x xs)
    show ?case
    proof (cases "prefix p (x # xs)")
      case True
      with Cons.prems have "b = []" and "a = drop (length p) (x # xs)" by auto
      moreover from True have "length p \<le> length (x # xs)" by (rule prefix_length_le)
      ultimately show ?thesis by simp
    next
      case False
      with Cons.prems obtain b' where "split_at_first p xs = Some (b', a)" "b = x # b'"
        by auto
      with Cons.IH show ?thesis by auto
    qed
  qed
  from 2 have "split_at_first opener s = Some (skipped, r1)"
    and "split_at_first mid r1 = Some (attrs, r2)"
    and "split_at_first closer r2 = Some (body, r3)"
    and "opener \<noteq> [] \<or> mid \<noteq> [] \<or> closer \<noteq> []"
    by auto
  from this(1-3)[THEN len] this(4) show ?case
    by auto
qed

text \<open>The pattern \<open><PRE.*?>(.*?)</PRE>\<close> of \<open>extract_pre_content\<close>.\<close>

definition PRE_OPEN :: ustr where
  "PRE_OPEN = of_ascii ''<PRE''"

definition TAG_END :: ustr where
  "TAG_END = of_ascii ''>''"

definition PRE_CLOSE :: ustr where
  "PRE_CLOSE = of_ascii ''</PRE>''"

definition findall_pre :: "ustr \<Rightarrow> ustr list" where
  "findall_pre s = findall_lazy PRE_OPEN TAG_END PRE_CLOSE s"

text \<open>
  A value that is either a list of strings or a string: \<open>extract_pre_content\<close> returns
  the list of the blocks, or the string \<open>"<Encoding Error>"\<close> from its \<open>except\<close> branch.
  Iterating over a string gives its characters, each a string of length one; a list or a
  string is true when it is not empty.
\<close>

datatype pyseq = PyList "ustr list" | PyStr ustr

fun iterate :: "pyseq \<Rightarrow> ustr list" where
  "iterate (PyList xs) = xs"
| "iterate (PyStr s) = map (\<lambda>c. [c]) s"

fun truthy_seq :: "pyseq \<Rightarrow> bool" where
  "truthy_seq (PyList xs) = (xs \<noteq> [])"
| "truthy_seq (PyStr s) = (s \<noteq> [])"

definition ENCODING_ERROR :: ustr where
  "ENCODING_ERROR = of_ascii ''<Encoding Error>''"

text \<open>
  A file as \<open>os.walk\<close> gives it: the directory, the name, and what detecting the encoding,
  opening and reading the file yields: the text, or \<open>None\<close> when any of the three raises.
\<close>

record source_file =
  walk_root :: ustr
  walk_name :: ustr
  read_text :: "ustr option"

definition extract_pre_content :: "ustr option \<Rightarrow> pyseq" where
  "extract_pre_content read =
     (case read of
        Some content \<Rightarrow> PyList (findall_pre content)
      | None \<Rightarrow> PyStr ENCODING_ERROR)"

definition process_content :: "pyseq \<Rightarrow> ele list" where
  "process_content content = map process_entry (iterate content)"

text \<open>
  What a run leaves behind: the JSON files written, each the path and the list under its
  key \<open>"content"\<close>, and the lines printed. The functions of \<open>os.path\<close> and the failure of
  a write belong to the platform and are parameters.
\<close>

record platform =
  path_join :: "ustr \<Rightarrow> ustr \<Rightarrow> ustr"
  splitext_root :: "ustr \<Rightarrow> ustr"
  write_error :: "ustr \<Rightarrow> ustr option"

record outcome =
  saved :: "(ustr \<times> ele list) list"
  printed :: "ustr list"

definition print :: "ustr \<Rightarrow> outcome \<Rightarrow> outcome" where
  "print line out = out\<lparr>printed := printed out @ [line]\<rparr>"

definition save_content_to_json :: "platform \<Rightarrow> pyseq \<Rightarrow> ustr \<Rightarrow> outcome \<Rightarrow> outcome" where
  "save_content_to_json os content json_path out =
     (case write_error os json_path of
        None \<Rightarrow>
          print (of_ascii ''Content saved to '' @ json_path)
            (out\<lparr>saved := saved out @ [(json_path, process_content content)]\<rparr>)
      | Some e \<Rightarrow>
          print (of_ascii ''Error saving content to '' @ json_path @ of_ascii '': '' @ e) out)"

definition process_file :: "platform \<Rightarrow> ustr \<Rightarrow> outcome \<Rightarrow> source_file \<Rightarrow> outcome" where
  "process_file os out_path out f =
     (let file_path = path_join os (walk_root f) (walk_name f);
          out1 = print (of_ascii ''Processing file: '' @ file_path) out;
          pre_contents = extract_pre_content (read_text f)
      in if truthy_seq pre_contents then
           save_content_to_json os pre_contents
             (splitext_root os (path_join os out_path (walk_name f)) @ of_ascii ''.json'') out1
         else out1)"

definition process_folder :: "platform \<Rightarrow> source_file list \<Rightarrow> ustr \<Rightarrow> outcome" where
  "process_folder os walk out_path =
     foldl (process_file os out_path) \<lparr>saved = [], printed = []\<rparr> walk"

text \<open>The three lists of a record have the same length.\<close>

definition aligned :: "ele \<Rightarrow> bool" where
  "aligned e =
     (length (ele_Name e) = length (ele_text e) \<and> length (ele_voice_tag e) = length (ele_text e))"

section \<open>vn_translator_git.py\<close>

subsection \<open>JSON values and the operations of Python on them\<close>

text \<open>
  What \<open>json.loads\<close> returns: \<open>None\<close>, a \<open>bool\<close>, an \<open>int\<close>, a \<open>float\<close>, a \<open>str\<close>, a
  \<open>list\<close> or a \<open>dict\<close> with string keys, in the order of insertion. A \<open>float\<close> is modelled
  by its value; the non-finite floats are left out.
\<close>

datatype json =
    JNull
  | JBool bool
  | JInt int
  | JFloat real
  | JStr ustr
  | JArr "json list"
  | JObj "(ustr \<times> json) list"

datatype py_error =
    KeyError ustr
  | TypeError
  | AttributeError
  | FileError
  | UnicodeEncodeError
  | ServiceError

fun truthy :: "json \<Rightarrow> bool" where
  "truthy JNull = False"
| "truthy (JBool b) = b"
| "truthy (JInt i) = (i \<noteq> 0)"
| "truthy (JFloat x) = (x \<noteq> 0)"
| "truthy (JStr s) = (s \<noteq> [])"
| "truthy (JArr xs) = (xs \<noteq> [])"
| "truthy (JObj kvs) = (kvs \<noteq> [])"

text \<open>\<open>d[k] = v\<close> on a dict: the value of a key already there is replaced in place, a
  new key goes to the end.\<close>

fun dict_set :: "(ustr \<times> json) list \<Rightarrow> ustr \<Rightarrow> json \<Rightarrow> (ustr \<times> json) list" where
  "dict_set [] k v = [(k, v)]"
| "dict_set ((k', v') # kvs) k v =
     (if k' = k then (k, v) # kvs else (k', v') # dict_set kvs k v)"

text \<open>\<open>x[k]\<close> and \<open>x[k] = v\<close> with a string \<open>k\<close>: only a dict takes a string as a
  subscript.\<close>

fun py_getitem :: "json \<Rightarrow> ustr \<Rightarrow> py_error + json" where
  "py_getitem (JObj kvs) k =
     (case map_of kvs k of None \<Rightarrow> Inl (KeyError k) | Some v \<Rightarrow> Inr v)"
| "py_getitem x k = Inl TypeError"

fun py_setitem :: "json \<Rightarrow> ustr \<Rightarrow> json \<Rightarrow> py_error + json" where
  "py_setitem (JObj kvs) k v = Inr (JObj (dict_set kvs k v))"
| "py_setitem x k v = Inl TypeError"

text \<open>\<open>for x in v\<close>: the elements of a list, the keys of a dict, the characters of a
  string; nothing else can be iterated.\<close>

fun py_iter :: "json \<Rightarrow> py_error + json list" where
  "py_iter (JArr xs) = Inr xs"
| "py_iter (JObj kvs) = Inr (map (\<lambda>(k, v). JStr k) kvs)"
| "py_iter (JStr s) = Inr (map (\<lambda>c. JStr [c]) s)"
| "py_iter x = Inl TypeError"

text \<open>
  Membership in a \<open>set\<close>: the value must be hashable, and it is found when an element is
  equal to it. Numbers and booleans are equal by value (\<open>True == 1 == 1.0\<close>).
\<close>

fun hashable :: "json \<Rightarrow> bool" where
  "hashable (JArr xs) = False"
| "hashable (JObj kvs) = False"
| "hashable x = True"

fun num_of :: "json \<Rightarrow> real option" where
  "num_of (JBool b) = Some (if b then 1 else 0)"
| "num_of (JInt i) = Some (real_of_int i)"
| "num_of (JFloat x) = Some x"
| "num_of x = None"

definition py_eq :: "json \<Rightarrow> json \<Rightarrow> bool" where
  "py_eq a b =
     (case (num_of a, num_of b) of
        (Some x, Some y) \<Rightarrow> x = y
      | (None, None) \<Rightarrow> a = b
      | _ \<Rightarrow> False)"

definition in_set :: "json \<Rightarrow> json list \<Rightarrow> bool" where
  "in_set x names = list_ex (py_eq x) names"

text \<open>
  Writing to a file opened with the encoding \<open>utf-8\<close>: a string can be written when it
  has no surrogate code point (U+D800 to U+DFFF), and \<open>json.dump\<close> with
  \<open>ensure_ascii=False\<close> writes the strings and the keys of a value as they are.
\<close>

definition str_encodable :: "ustr \<Rightarrow> bool" where
  "str_encodable s = list_all (\<lambda>c. \<not> (55296 \<le> c \<and> c \<le> 57343)) s"

fun json_encodable :: "json \<Rightarrow> bool" where
  "json_encodable (JStr s) = str_encodable s"
| "json_encodable (JArr xs) = (\<forall>x \<in> set xs. json_encodable x)"
| "json_encodable (JObj kvs) =
     (\<forall>kv \<in> set kvs. str_encodable (fst kv) \<and> json_encodable (snd kv))"
| "json_encodable x = True"

subsection \<open>Text helpers\<close>

text \<open>\<open>str.strip()\<close> removes the white space of \<open>str.isspace\<close> at both ends.\<close>

definition is_space :: "nat \<Rightarrow> bool" where
  "is_space c =
     ((9 \<le> c \<and> c \<le> 13) \<or> (28 \<le> c \<and> c \<le> 32) \<or> c = 133 \<or> c = 160 \<or> c = 5760 \<or>
      (8192 \<le> c \<and> c \<le> 8202) \<or> c = 8232 \<or> c = 8233 \<or> c = 8239 \<or> c = 8287 \<or> c = 12288)"

definition strip :: "ustr \<Rightarrow> ustr" where
  "strip s = rev (dropWhile is_space (rev (dropWhile is_space s)))"

text \<open>\<open>str(n)\<close> of an index.\<close>

fun str_of_nat :: "nat \<Rightarrow> ustr" where
  "str_of_nat n = (if n < 10 then [48 + n] else str_of_nat (n div 10) @ [48 + n mod 10])"

text \<open>The pattern of a fenced JSON region; the fence is three grave accents.\<close>

definition FENCE_OPEN :: ustr where
  "FENCE_OPEN = [96, 96, 96] @ of_ascii ''json''"

definition FENCE_CLOSE :: ustr where
  "FENCE_CLOSE = [96, 96, 96]"

definition findall_json :: "ustr \<Rightarrow> ustr list" where
  "findall_json s = findall_lazy FENCE_OPEN [] FENCE_CLOSE s"

definition AYA_EXP :: ustr where
  "AYA_EXP = of_ascii ''aya-expanse''"

subsection \<open>The collaborators and the trace of a run\<close>

text \<open>
  The collaborators of the translator are parameters:
  \<^item> \<open>loads\<close> is \<open>json.loads\<close>: the value, or the text of the exception;
  \<^item> \<open>dumps indent\<close> is \<open>json.dumps\<close> with \<open>ensure_ascii=False\<close> and the given
    indentation;
  \<^item> \<open>chat n model prompt\<close> is the content of the message that the generation service
    returns to the call number \<open>n\<close> of the run (the system prompt is the same in every
    call), or \<open>None\<close> when the call raises;
  \<^item> \<open>unwritable path\<close> holds when opening the file of that path for writing raises;
  \<^item> \<open>CHECK_GLOSSARY\<close> and \<open>VN_NSS_JSON_TRANSLATION_INSTRUCTION\<close> are the two prompt
    templates of that name, whose text no operation looks into.
\<close>

record collaborators =
  loads :: "ustr \<Rightarrow> ustr + json"
  dumps :: "nat option \<Rightarrow> json \<Rightarrow> ustr"
  chat :: "nat \<Rightarrow> ustr \<Rightarrow> ustr \<Rightarrow> ustr option"
  unwritable :: "ustr \<Rightarrow> bool"
  CHECK_GLOSSARY :: ustr
  VN_NSS_JSON_TRANSLATION_INSTRUCTION :: ustr

text \<open>
  The trace of a run: the calls made to the generation service (model and prompt) and
  the strings given to \<open>json.loads\<close>, both in the order of the calls. The progress
  messages that the translator prints are not part of the model.
\<close>

record trace =
  chat_log :: "(ustr \<times> ustr) list"
  parse_log :: "ustr list"

definition json_loads :: "collaborators \<Rightarrow> ustr \<Rightarrow> trace \<Rightarrow> (ustr + json) \<times> trace" where
  "json_loads env s w = (loads env s, w\<lparr>parse_log := parse_log w @ [s]\<rparr>)"

definition do_with_text ::
  "collaborators \<Rightarrow> ustr \<Rightarrow> ustr \<Rightarrow> trace \<Rightarrow> py_error + (ustr \<times> trace)" where
  "do_with_text env prompt model w =
     (case chat env (length (chat_log w)) model prompt of
        None \<Rightarrow> Inl ServiceError
      | Some content \<Rightarrow> Inr (strip content, w\<lparr>chat_log := chat_log w @ [(model, prompt)]\<rparr>))"

definition get_instruction_prompt :: "ustr \<Rightarrow> ustr \<Rightarrow> ustr" where
  "get_instruction_prompt instructions input_text = instructions @ input_text"

subsection \<open>loadJsonWithReTry\<close>

definition getFixJsonPrompt :: "ustr \<Rightarrow> ustr \<Rightarrow> ustr" where
  "getFixJsonPrompt incorrectJson error =
     [10] @ of_ascii ''The following json string:'' @ [10, 10, 34] @ incorrectJson @
     [34, 10, 10] @ of_ascii ''Failed to load with the following error:'' @ [10, 10, 34] @
     error @ [34, 10, 10] @ of_ascii ''Please check and fix the json string.'' @ [10]"

definition failure_message :: "nat \<Rightarrow> ustr \<Rightarrow> ustr \<Rightarrow> ustr \<Rightarrow> ustr" where
  "failure_message json_index file_name json_str e =
     of_ascii ''Unable to load json string at inex: '' @ str_of_nat json_index @
     of_ascii '' from file: '' @ file_name @ of_ascii ''.'' @
     of_ascii ''The json string is '' @ [10, 10, 32] @ json_str @ [32, 10, 10] @
     of_ascii '' and error received is '' @ [10, 10] @ e @ [10, 10]"

definition INDEX_ERROR_TEXT :: ustr where
  "INDEX_ERROR_TEXT = of_ascii ''list index out of range''"

text \<open>The inner \<open>except\<close> branch: the failure message is built; \<open>json_data\<close> is still
  \<open>None\<close>.\<close>

definition retry_failed ::
  "nat \<Rightarrow> ustr \<Rightarrow> ustr \<Rightarrow> ustr \<Rightarrow> trace \<Rightarrow> (json \<times> ustr option) \<times> trace" where
  "retry_failed json_index file_name json_str e w =
     ((JNull, Some (failure_message json_index file_name json_str e)), w)"

text \<open>
  The result is the pair \<open>(json_data, failure)\<close> of the source; an exception that leaves
  the function (the call to the generation service stands outside the inner \<open>try\<close>) is
  \<open>Inl\<close>.
\<close>

definition loadJsonWithReTry ::
  "collaborators \<Rightarrow> ustr \<Rightarrow> nat \<Rightarrow> ustr \<Rightarrow> trace \<Rightarrow>
     py_error + ((json \<times> ustr option) \<times> trace)" where
  "loadJsonWithReTry env file_name json_index json_str w =
     (case json_loads env (strip json_str) w of
        (Inr json_data, w1) \<Rightarrow> Inr ((json_data, None), w1)
      | (Inl e, w1) \<Rightarrow>
          (let prompt = getFixJsonPrompt (strip json_str) e
           in case do_with_text env prompt AYA_EXP w1 of
                Inl err \<Rightarrow> Inl err
              | Inr (response, w2) \<Rightarrow>
                  (case findall_json response of
                     [] \<Rightarrow> Inr (retry_failed json_index file_name json_str INDEX_ERROR_TEXT w2)
                   | json_str' # others \<Rightarrow>
                       (case json_loads env (strip json_str') w2 of
                          (Inr json_data, w3) \<Rightarrow> Inr ((json_data, None), w3)
                        | (Inl e', w3) \<Rightarrow>
                            Inr (retry_failed json_index file_name json_str' e' w3)))))"

text \<open>\<open>if failure:\<close> holds for a string that is not empty, and not for \<open>None\<close>.\<close>

fun truthy_failure :: "ustr option \<Rightarrow> bool" where
  "truthy_failure None = False"
| "truthy_failure (Some f) = (f \<noteq> [])"

subsection \<open>extract_json_from_text\<close>

text \<open>
  The loop over \<open>enumerate(json_blocks)\<close>, from the index \<open>index\<close> on, with the two lists
  \<open>combined_list\<close> and \<open>failure_log\<close> that it extends.
\<close>

fun extract_blocks ::
  "collaborators \<Rightarrow> ustr \<Rightarrow> nat \<Rightarrow> ustr list \<Rightarrow> json list \<times> ustr list \<times> trace \<Rightarrow>
     py_error + (json list \<times> ustr list \<times> trace)" where
  "extract_blocks env file_name index [] acc = Inr acc"
| "extract_blocks env file_name index (block # blocks) (combined_list, failure_log, w) =
     (case loadJsonWithReTry env file_name index block w of
        Inl err \<Rightarrow> Inl err
      | Inr ((json_data, failure), w') \<Rightarrow>
          if truthy_failure failure then
            extract_blocks env file_name (index + 1) blocks
              (combined_list, failure_log @ [the failure], w')
          else
            extract_blocks env file_name (index + 1) blocks
              (combined_list @ [json_data], failure_log, w'))"

text \<open>
  \<open>extract_json_from_text\<close>, where \<open>read\<close> is the text of the input file, or \<open>None\<close> when
  opening or reading it raises. After the loop the list is dumped to the output file,
  and the failures are written to the error log when there is one; neither write is
  guarded. The result is the list written, the failures written, and the trace.
\<close>

definition extract_json_from_text ::
  "collaborators \<Rightarrow> ustr \<Rightarrow> ustr option \<Rightarrow> ustr \<Rightarrow> ustr \<Rightarrow> trace \<Rightarrow>
     py_error + (json list \<times> ustr list \<times> trace)" where
  "extract_json_from_text env input_file read out_json_file error_log_file w =
     (case read of
        None \<Rightarrow> Inl FileError
      | Some content \<Rightarrow>
          (case extract_blocks env input_file 0 (findall_json content) ([], [], w) of
             Inl err \<Rightarrow> Inl err
           | Inr (combined_list, failure_log, w') \<Rightarrow>
               if unwritable env out_json_file then Inl FileError
               else if \<not> list_all json_encodable combined_list then Inl UnicodeEncodeError
               else if failure_log \<noteq> [] then
                 (if unwritable env error_log_file then Inl FileError
                  else if \<not> list_all str_encodable failure_log then Inl UnicodeEncodeError
                  else Inr (combined_list, failure_log, w'))
               else Inr (combined_list, failure_log, w')))"

subsection \<open>create_glossary_json\<close>

definition JAPANESENAME :: ustr where
  "JAPANESENAME = of_ascii ''japanesename''"

definition GENDER :: ustr where
  "GENDER = of_ascii ''gender''"

definition ISCHAR :: ustr where
  "ISCHAR = of_ascii ''ischar''"

text \<open>A loop whose body may raise: the first exception ends it.\<close>

fun fold_err :: "('a \<Rightarrow> 's \<Rightarrow> 'e + 's) \<Rightarrow> 'a list \<Rightarrow> 's \<Rightarrow> 'e + 's" where
  "fold_err f [] s = Inr s"
| "fold_err f (x # xs) s = (case f x s of Inl e \<Rightarrow> Inl e | Inr s' \<Rightarrow> fold_err f xs s')"

text \<open>
  The body of the inner loop, on the pair of \<open>names_read\<close> and \<open>processed_json_eles\<close>.
  \<open>ele["japanesename"]\<close> needs a dict with that key, and the test against the set needs
  a hashable value.
\<close>

definition glossary_add ::
  "json \<Rightarrow> json list \<times> json list \<Rightarrow> py_error + (json list \<times> json list)" where
  "glossary_add ele st =
     (case st of (names_read, processed_json_eles) \<Rightarrow>
        (case ele of
           JObj kvs \<Rightarrow>
             (case map_of kvs JAPANESENAME of
                None \<Rightarrow> Inl (KeyError JAPANESENAME)
              | Some name \<Rightarrow>
                  if \<not> hashable name then Inl TypeError
                  else if \<not> in_set name names_read then
                    (let kvs1 = (if map_of kvs GENDER = None
                                 then dict_set kvs GENDER JNull else kvs);
                         kvs2 = (if map_of kvs1 ISCHAR = None
                                 then dict_set kvs1 ISCHAR (JBool False) else kvs1)
                     in Inr (names_read @ [name], processed_json_eles @ [JObj kvs2]))
                  else Inr (names_read, processed_json_eles))
         | _ \<Rightarrow> Inl TypeError))"

definition glossary_batch ::
  "json \<Rightarrow> json list \<times> json list \<Rightarrow> py_error + (json list \<times> json list)" where
  "glossary_batch ele_list st =
     (case py_iter ele_list of
        Inl err \<Rightarrow> Inl err
      | Inr eles \<Rightarrow> fold_err glossary_add eles st)"

text \<open>The two loops over \<open>data\<close>, the list that \<open>extract_json_from_text\<close> wrote to the
  glossary file; the result is the list dumped to that file.\<close>

definition glossary_merge :: "json list \<Rightarrow> py_error + json list" where
  "glossary_merge data =
     (case fold_err glossary_batch data ([], []) of
        Inl err \<Rightarrow> Inl err
      | Inr (names_read, processed_json_eles) \<Rightarrow> Inr processed_json_eles)"

definition GLOSSARY_ERROR_LOG :: ustr where
  "GLOSSARY_ERROR_LOG = of_ascii ''glossary_json_creation_error_logs.txt''"

text \<open>\<open>create_glossary_json\<close>: the glossary file is read back as it was just written, and
  the final dump goes through \<open>dump_json_dic_to_json_file\<close>, which catches the exceptions
  of its write.\<close>

definition create_glossary_json ::
  "collaborators \<Rightarrow> ustr \<Rightarrow> ustr option \<Rightarrow> ustr \<Rightarrow> trace \<Rightarrow>
     py_error + (json list \<times> ustr list \<times> trace)" where
  "create_glossary_json env raw_glossary_loc raw_glossary glossary_loc w =
     (case extract_json_from_text env raw_glossary_loc raw_glossary glossary_loc
             GLOSSARY_ERROR_LOG w of
        Inl err \<Rightarrow> Inl err
      | Inr (data, failure_log, w') \<Rightarrow>
          (case glossary_merge data of
             Inl err \<Rightarrow> Inl err
           | Inr processed_json_eles \<Rightarrow> Inr (processed_json_eles, failure_log, w')))"

subsection \<open>create_raw_translation_vn_nss_json\<close>

definition TEXT :: ustr where
  "TEXT = of_ascii ''text''"

definition TEXT_LABEL :: ustr where
  "TEXT_LABEL = of_ascii ''text label''"

definition VOICE_TAG :: ustr where
  "VOICE_TAG = of_ascii ''voice tag''"

definition NAME :: ustr where
  "NAME = of_ascii ''Name''"

definition CONTENT :: ustr where
  "CONTENT = of_ascii ''content''"

text \<open>
  The loop of \<open>get_translate_with_glossary_prompt\<close> over the keys of the loaded glossary:
  \<open>key in chunk\<close> needs a string on its left.
\<close>

fun glossary_to_include :: "(json \<times> json) list \<Rightarrow> ustr \<Rightarrow> py_error + (ustr \<times> json) list" where
  "glossary_to_include [] chunk = Inr []"
| "glossary_to_include ((JStr key, v) # rest) chunk =
     (case glossary_to_include rest chunk of
        Inl err \<Rightarrow> Inl err
      | Inr included \<Rightarrow> Inr (if str_in key chunk then (key, v) # included else included))"
| "glossary_to_include ((key, v) # rest) chunk = Inl TypeError"

definition get_translate_with_glossary_prompt ::
  "collaborators \<Rightarrow> (json \<times> json) list \<Rightarrow> ustr \<Rightarrow> ustr \<Rightarrow> py_error + ustr" where
  "get_translate_with_glossary_prompt env loaded_glossary chunk translation_instruction =
     (case glossary_to_include loaded_glossary chunk of
        Inl err \<Rightarrow> Inl err
      | Inr included \<Rightarrow>
          Inr (get_instruction_prompt (CHECK_GLOSSARY env) (dumps env None (JObj included)) @
               [10] @ get_instruction_prompt translation_instruction chunk))"

text \<open>\<open>json_data[key] = element[key]\<close>: the right-hand side is evaluated first.\<close>

definition copy_key :: "ustr \<Rightarrow> json \<Rightarrow> json \<Rightarrow> py_error + json" where
  "copy_key key element json_data =
     (case py_getitem element key of
        Inl err \<Rightarrow> Inl err
      | Inr v \<Rightarrow> py_setitem json_data key v)"

text \<open>
  The body of the loop over the elements of one file, on \<open>collected_json\<close>, \<open>failure_log\<close>
  and the trace.
\<close>

definition translate_element ::
  "collaborators \<Rightarrow> (json \<times> json) list \<Rightarrow> ustr \<Rightarrow> nat \<Rightarrow> json \<Rightarrow>
     json list \<times> ustr list \<times> trace \<Rightarrow> py_error + (json list \<times> ustr list \<times> trace)" where
  "translate_element env loaded_glossary file_name index element st =
     (case st of (collected_json, failure_log, w) \<Rightarrow>
        if truthy element then
          (case py_getitem element TEXT of
             Inl err \<Rightarrow> Inl err
           | Inr texts \<Rightarrow>
               (let translation_json = JObj [(TEXT, texts)];
                    str_json_ele = dumps env (Some 4) translation_json
                in case get_translate_with_glossary_prompt env loaded_glossary str_json_ele
                          (VN_NSS_JSON_TRANSLATION_INSTRUCTION env) of
                     Inl err \<Rightarrow> Inl err
                   | Inr prompt \<Rightarrow>
                       (case do_with_text env prompt AYA_EXP w of
                          Inl err \<Rightarrow> Inl err
                        | Inr (response, w1) \<Rightarrow>
                            (case findall_json response of
                               [] \<Rightarrow> Inr (collected_json, failure_log, w1)
                             | block # others \<Rightarrow>
                                 (case loadJsonWithReTry env file_name index block w1 of
                                    Inl err \<Rightarrow> Inl err
                                  | Inr ((json_data, failure), w2) \<Rightarrow>
                                      if truthy_failure failure then
                                        Inr (collected_json, failure_log @ [the failure], w2)
                                      else
                                        (case copy_key TEXT_LABEL element json_data of
                                           Inl err \<Rightarrow> Inl err
                                         | Inr j1 \<Rightarrow>
                                             (case copy_key VOICE_TAG element j1 of
                                                Inl err \<Rightarrow> Inl err
                                              | Inr j2 \<Rightarrow>
                                                  (case copy_key NAME element j2 of
                                                     Inl err \<Rightarrow> Inl err
                                                   | Inr j3 \<Rightarrow>
                                                       Inr (collected_json @ [j3],
                                                            failure_log, w2)))))))))
        else Inr (collected_json, failure_log, w))"

fun translate_elements ::
  "collaborators \<Rightarrow> (json \<times> json) list \<Rightarrow> ustr \<Rightarrow> nat \<Rightarrow> json list \<Rightarrow>
     json list \<times> ustr list \<times> trace \<Rightarrow> py_error + (json list \<times> ustr list \<times> trace)" where
  "translate_elements env loaded_glossary file_name index [] st = Inr st"
| "translate_elements env loaded_glossary file_name index (element # elements) st =
     (case translate_element env loaded_glossary file_name index element st of
        Inl err \<Rightarrow> Inl err
      | Inr st' \<Rightarrow> translate_elements env loaded_glossary file_name (index + 1) elements st')"

text \<open>
  \<open>read_nss_json_content\<close> on what \<open>json.load\<close> gives for the file (\<open>None\<close> when opening or
  parsing the file raises): the elements under the key \<open>"content"\<close>.
\<close>

definition read_nss_json_content :: "json option \<Rightarrow> py_error + json list" where
  "read_nss_json_content loaded =
     (case loaded of
        None \<Rightarrow> Inl FileError
      | Some (JObj kvs) \<Rightarrow>
          (case map_of kvs CONTENT of None \<Rightarrow> Inr [] | Some c \<Rightarrow> py_iter c)
      | Some other \<Rightarrow> Inl AttributeError)"

text \<open>
  A JSON file of the input folder, by its name and what loading it gives. The run
  returns the files handed to \<open>dump_json_dic_to_json_file\<close>, by name, with the failure
  log and the trace; \<open>dump_json_dic_to_json_file\<close> catches the exceptions of its write.
\<close>

record nss_json_file =
  nss_name :: ustr
  nss_loaded :: "json option"

definition translate_file ::
  "collaborators \<Rightarrow> (json \<times> json) list \<Rightarrow> nss_json_file \<Rightarrow>
     (ustr \<times> json) list \<times> ustr list \<times> trace \<Rightarrow>
     py_error + ((ustr \<times> json) list \<times> ustr list \<times> trace)" where
  "translate_file env loaded_glossary f st =
     (case st of (dumped, failure_log, w) \<Rightarrow>
        (case read_nss_json_content (nss_loaded f) of
           Inl err \<Rightarrow> Inl err
         | Inr elements \<Rightarrow>
             (case translate_elements env loaded_glossary (nss_name f) 0 elements
                     ([], failure_log, w) of
                Inl err \<Rightarrow> Inl err
              | Inr (collected_json, failure_log', w') \<Rightarrow>
                  Inr (dumped @ [(nss_name f, JObj [(CONTENT, JArr collected_json)])],
                       failure_log', w'))))"

definition create_raw_translation_vn_nss_json ::
  "collaborators \<Rightarrow> (json \<times> json) list \<Rightarrow> nss_json_file list \<Rightarrow> trace \<Rightarrow>
     py_error + ((ustr \<times> json) list \<times> ustr list \<times> trace)" where
  "create_raw_translation_vn_nss_json env loaded_glossary walk w =
     fold_err (translate_file env loaded_glossary) walk ([], [], w)"

section \<open>Example inputs\<close>

text \<open>The block of three lines: a name line, and two utterances \<open>Hello\<close> and \<open>world\<close> in
  corner brackets.\<close>

definition NAME_HELLO_WORLD :: ustr where
  "NAME_HELLO_WORLD =
     [12304] @ of_ascii ''Name'' @ [12305, 10, 12300] @ of_ascii ''Hello'' @
     [12301, 10, 12300] @ of_ascii ''world'' @ [12301]"

text \<open>
  The platform of \<open>posixpath\<close>, with writes that succeed. \<open>posix_join\<close> is \<open>os.path.join\<close>
  of two paths: the second alone when it starts with a slash, else the two with one
  slash between them unless the first is empty or ends with one. \<open>posix_splitext_root\<close>
  is the first component of \<open>os.path.splitext\<close>: the path up to the last dot of its last
  component, when some character other than a dot stands before that dot in the
  component, and the whole path otherwise.
\<close>

definition posix_join :: "ustr \<Rightarrow> ustr \<Rightarrow> ustr" where
  "posix_join a b =
     (if b \<noteq> [] \<and> hd b = 47 then b
      else if a = [] \<or> last a = 47 then a @ b
      else a @ [47] @ b)"

definition posix_splitext_root :: "ustr \<Rightarrow> ustr" where
  "posix_splitext_root p =
     (let name = rev (takeWhile (\<lambda>c. c \<noteq> 47) (rev p));
          dir = rev (dropWhile (\<lambda>c. c \<noteq> 47) (rev p));
          stem = rev (tl (dropWhile (\<lambda>c. c \<noteq> 46) (rev name)))
      in if 46 \<in> set name \<and> (\<exists>c \<in> set stem. c \<noteq> 46) then dir @ stem else p)"

definition posix :: platform where
  "posix = \<lparr>path_join = posix_join, splitext_root = posix_splitext_root,
            write_error = (\<lambda>p. None)\<rparr>"

text \<open>
  A stand-in for the collaborators of the translator. \<open>sample_loads\<close> knows the JSON
  documents of \<open>SAMPLE_DOCS\<close> and answers every other string, like \<open>x\<close> and \<open>y\<close> below, as
  \<open>json.loads\<close> answers a string that starts with no JSON value; \<open>sample_dumps\<close> knows
  the two values serialised in the examples; \<open>scripted replies\<close> is a generation service
  that gives the replies in turn and raises when they are used up. Every file can be
  opened for writing, and the two prompt templates are short texts.
\<close>

definition quoted :: "ustr \<Rightarrow> ustr" where
  "quoted s = [34] @ s @ [34]"

definition fenced :: "ustr \<Rightarrow> ustr" where
  "fenced body = FENCE_OPEN @ body @ FENCE_CLOSE"

definition YES_TARO_BODY :: ustr where
  "YES_TARO_BODY =
     of_ascii ''{'' @ quoted (of_ascii ''text'') @ of_ascii '': ['' @ quoted (of_ascii ''Yes'') @
     of_ascii ''], '' @ quoted (of_ascii ''Name'') @ of_ascii '': ['' @
     quoted (of_ascii ''Taro'') @ of_ascii '']}''"

definition YES_TARO :: json where
  "YES_TARO = JObj [(TEXT, JArr [JStr (of_ascii ''Yes'')]), (NAME, JArr [JStr (of_ascii ''Taro'')])]"

definition SAMPLE_DOCS :: "(ustr \<times> json) list" where
  "SAMPLE_DOCS =
     [(of_ascii ''1'', JInt 1), (of_ascii ''2'', JInt 2), (of_ascii ''3'', JInt 3),
      (YES_TARO_BODY, YES_TARO)]"

definition EXPECTING_VALUE :: ustr where
  "EXPECTING_VALUE = of_ascii ''Expecting value: line 1 column 1 (char 0)''"

definition sample_loads :: "ustr \<Rightarrow> ustr + json" where
  "sample_loads s = (case map_of SAMPLE_DOCS s of Some v \<Rightarrow> Inr v | None \<Rightarrow> Inl EXPECTING_VALUE)"

text \<open>The record of a block with the label \<open>[text001]\<close>, the name U+592A U+90CE in
  lenticular brackets and the utterance U+306F U+3044 in corner brackets.\<close>

definition HAI :: ustr where
  "HAI = [12300, 12399, 12356, 12301]"

definition TARO_JP :: ustr where
  "TARO_JP = [12304, 22826, 37070, 12305]"

definition SAMPLE_ELEMENT :: json where
  "SAMPLE_ELEMENT =
     JObj [(TEXT_LABEL, JStr (of_ascii ''[text001]'')), (NAME, JArr [JStr TARO_JP]),
           (VOICE_TAG, JArr [JNull]), (TEXT, JArr [JStr HAI])]"

definition SAMPLE_REQUEST :: ustr where
  "SAMPLE_REQUEST =
     of_ascii ''{'' @ [10] @ of_ascii ''    '' @ quoted (of_ascii ''text'') @ of_ascii '': ['' @
     [10] @ of_ascii ''        '' @ quoted HAI @ [10] @ of_ascii ''    ]'' @ [10] @
     of_ascii ''}''"

definition sample_dumps :: "nat option \<Rightarrow> json \<Rightarrow> ustr" where
  "sample_dumps indent v =
     (if indent = Some 4 \<and> v = JObj [(TEXT, JArr [JStr HAI])] then SAMPLE_REQUEST
      else if indent = None \<and> v = JObj [] then of_ascii ''{}''
      else [])"

definition scripted :: "ustr list \<Rightarrow> nat \<Rightarrow> ustr \<Rightarrow> ustr \<Rightarrow> ustr option" where
  "scripted replies n model prompt = (if n < length replies then Some (replies ! n) else None)"

text \<open>A generation service that gives the same reply to every call.\<close>

definition always :: "ustr \<Rightarrow> nat \<Rightarrow> ustr \<Rightarrow> ustr \<Rightarrow> ustr option" where
  "always reply n model prompt = Some reply"

definition sample_env :: "(nat \<Rightarrow> ustr \<Rightarrow> ustr \<Rightarrow> ustr option) \<Rightarrow> collaborators" where
  "sample_env service =
     \<lparr>loads = sample_loads, dumps = sample_dumps, chat = service,
      unwritable = (\<lambda>path. False),
      CHECK_GLOSSARY = of_ascii ''Here is the Glossary:'',
      VN_NSS_JSON_TRANSLATION_INSTRUCTION = of_ascii ''translate the following json:''\<rparr>"

definition no_trace :: trace where
  "no_trace = \<lparr>chat_log = [], parse_log = []\<rparr>"

text \<open>The prompt that the record \<open>SAMPLE_ELEMENT\<close> gives with an empty glossary.\<close>

definition SAMPLE_PROMPT :: ustr where
  "SAMPLE_PROMPT =
     of_ascii ''Here is the Glossary:{}'' @ [10] @ of_ascii ''translate the following json:'' @
     SAMPLE_REQUEST"

text \<open>Three replies of the generation service: one without any fenced region, one with
  the fenced translation \<open>YES_TARO_BODY\<close>, and a text of three fenced regions, the second
  of which is not JSON.\<close>

definition SORRY_REPLY :: ustr where
  "SORRY_REPLY = of_ascii ''I cannot translate this.''"

definition YES_TARO_REPLY :: ustr where
  "YES_TARO_REPLY = of_ascii ''Here you are:'' @ [10] @ fenced ([10] @ YES_TARO_BODY @ [10])"

definition THREE_REGIONS :: ustr where
  "THREE_REGIONS =
     fenced (of_ascii ''1'') @ [10] @ fenced (of_ascii ''x'') @ [10] @ fenced (of_ascii ''3'')"

section \<open>The outcomes of the regions of a text\<close>

text \<open>
  What the extraction is to compute, in the words of the recovery protocol. The body of
  a region is parsed: on success the region is \<open>Parsed\<close>. On failure one repair request,
  built from the body and the error text, goes to the generation service, as the call
  number \<open>n\<close> of the run, and the first fenced region of the reply is parsed: on success
  the region is \<open>Recovered\<close>, otherwise \<open>Failed\<close> with the failure message for the source,
  the index, the last body tried and the last error (a reply without a fenced region
  leaves the body and gives the error of an empty list). There is no outcome when the
  service raises.
\<close>

datatype recovery = Parsed json | Recovered json | Failed ustr

definition region_outcome ::
  "collaborators \<Rightarrow> ustr \<Rightarrow> nat \<Rightarrow> nat \<Rightarrow> ustr \<Rightarrow> recovery option" where
  "region_outcome env source n index body =
     (case loads env (strip body) of
        Inr v \<Rightarrow> Some (Parsed v)
      | Inl e \<Rightarrow>
          (case chat env n AYA_EXP (getFixJsonPrompt (strip body) e) of
             None \<Rightarrow> None
           | Some reply \<Rightarrow>
               (case findall_json (strip reply) of
                  [] \<Rightarrow> Some (Failed (failure_message index source body INDEX_ERROR_TEXT))
                | region # others \<Rightarrow>
                    (case loads env (strip region) of
                       Inr v \<Rightarrow> Some (Recovered v)
                     | Inl e' \<Rightarrow> Some (Failed (failure_message index source region e'))))))"

text \<open>A region needs a repair when its body does not parse; each repair is one more call
  to the service.\<close>

definition needs_repair :: "collaborators \<Rightarrow> ustr \<Rightarrow> bool" where
  "needs_repair env body = isl (loads env (strip body))"

fun region_outcomes ::
  "collaborators \<Rightarrow> ustr \<Rightarrow> nat \<Rightarrow> nat \<Rightarrow> ustr list \<Rightarrow> recovery list option" where
  "region_outcomes env source n index [] = Some []"
| "region_outcomes env source n index (body # bodies) =
     (case region_outcome env source n index body of
        None \<Rightarrow> None
      | Some oc \<Rightarrow>
          (case region_outcomes env source (if needs_repair env body then n + 1 else n)
                  (index + 1) bodies of
             None \<Rightarrow> None
           | Some ocs \<Rightarrow> Some (oc # ocs)))"

text \<open>The values of the regions that are parsed or recovered, and the messages of the
  regions that failed, in the order of the regions.\<close>

fun value_of :: "recovery \<Rightarrow> json option" where
  "value_of (Parsed v) = Some v"
| "value_of (Recovered v) = Some v"
| "value_of (Failed m) = None"

fun failure_of :: "recovery \<Rightarrow> ustr option" where
  "failure_of (Failed m) = Some m"
| "failure_of oc = None"

definition values_of :: "recovery list \<Rightarrow> json list" where
  "values_of ocs = List.map_filter value_of ocs"

definition failures_of :: "recovery list \<Rightarrow> ustr list" where
  "failures_of ocs = List.map_filter failure_of ocs"

text \<open>The pair \<open>(json_data, failure)\<close> that stands for an outcome.\<close>

fun result_of :: "recovery \<Rightarrow> json \<times> ustr option" where
  "result_of (Parsed v) = (v, None)"
| "result_of (Recovered v) = (v, None)"
| "result_of (Failed m) = (JNull, Some m)"

section \<open>The glossary without duplicates\<close>

text \<open>
  What the merge of the glossary is to compute, in the words of its description: the
  entries of all the batches in their order (\<open>entries\<close>), of which an entry stays when no
  earlier entry has the same name (\<open>first_occurrences\<close>), each with the two defaults
  (\<open>with_defaults\<close>). Two entries have the same name when the values of their key
  \<open>japanesename\<close> are equal. An entry is valid when it is a dict with that key and a
  hashable value for it.
\<close>

definition japanesename :: "json \<Rightarrow> json option" where
  "japanesename e = (case e of JObj kvs \<Rightarrow> map_of kvs JAPANESENAME | _ \<Rightarrow> None)"

definition same_japanesename :: "json \<Rightarrow> json \<Rightarrow> bool" where
  "same_japanesename e x =
     (case (japanesename x, japanesename e) of
        (Some a, Some b) \<Rightarrow> py_eq a b
      | _ \<Rightarrow> False)"

function first_occurrences :: "json list \<Rightarrow> json list" where
  "first_occurrences [] = []"
| "first_occurrences (e # es) =
     e # first_occurrences (filter (\<lambda>x. \<not> same_japanesename e x) es)"
  by pat_completeness auto
termination
  by (relation "measure length") (auto simp: less_Suc_eq_le)

definition with_defaults :: "json \<Rightarrow> json" where
  "with_defaults e =
     (case e of
        JObj kvs \<Rightarrow>
          (let kvs1 = (if map_of kvs GENDER = None then dict_set kvs GENDER JNull else kvs);
               kvs2 = (if map_of kvs1 ISCHAR = None
                       then dict_set kvs1 ISCHAR (JBool False) else kvs1)
           in JObj kvs2)
      | _ \<Rightarrow> e)"

definition entries :: "json list \<Rightarrow> json list" where
  "entries data =
     concat (map (\<lambda>ele_list. case py_iter ele_list of Inr eles \<Rightarrow> eles | Inl err \<Rightarrow> []) data)"

definition valid_entry :: "json \<Rightarrow> bool" where
  "valid_entry e = (case japanesename e of Some name \<Rightarrow> hashable name | None \<Rightarrow> False)"

text \<open>A glossary of two batches: two entries, and a second entry for the name of the
  first, U+592A U+90CE, with another rendering.\<close>

definition HANAKO_JP :: ustr where
  "HANAKO_JP = [33457, 23376]"

definition TARO_KEY :: ustr where
  "TARO_KEY = [22826, 37070]"

definition ACTUALNAME :: ustr where
  "ACTUALNAME = of_ascii ''actualname''"

definition SAMPLE_GLOSSARY :: "json list" where
  "SAMPLE_GLOSSARY =
     [JArr [JObj [(JAPANESENAME, JStr TARO_KEY), (ACTUALNAME, JStr (of_ascii ''Taro''))],
            JObj [(JAPANESENAME, JStr HANAKO_JP), (ACTUALNAME, JStr (of_ascii ''Hanako'')),
                  (GENDER, JStr (of_ascii ''female''))]],
      JArr [JObj [(JAPANESENAME, JStr TARO_KEY), (ACTUALNAME, JStr (of_ascii ''Tarou''))]]]"

section \<open>Properties of the extractor\<close>

declare findall_lazy.simps [simp del]

lemmas marker_defs = TEXT_LABEL_MARK_def QUOTE_OPEN_def QUOTE_CLOSE_def NAME_OPEN_def
  VOICE_MARK_def of_ascii_def str_in_def

lemmas extractor_eval = process_content_def process_entry_def splitlines_def is_linebreak_def
  process_lines_def process_line_def new_ele_def marker_defs sublist_code pad_Name_def
  pad_voice_tag_def append_text_def

subsection \<open>The label, line by line\<close>

lemma text_label_step:
  "ele_text_label (process_line e l) =
     (if str_in TEXT_LABEL_MARK l then Some l else ele_text_label e)"
  by (auto simp: process_line_def pad_Name_def pad_voice_tag_def append_text_def Let_def
      marker_defs)

lemma text_label_foldl:
  "ele_text_label (foldl process_line e ls) =
     (if filter (str_in TEXT_LABEL_MARK) ls = [] then ele_text_label e
      else Some (last (filter (str_in TEXT_LABEL_MARK) ls)))"
  by (induction ls rule: rev_induct) (simp_all add: text_label_step)

subsection \<open>The lengths of the three lists\<close>

text \<open>
  C1 on the code: a block that is one line without any marker, here \<open>hello\<close>, gives a
  record whose \<open>text\<close> has one entry while \<open>Name\<close> and \<open>voice tag\<close> are empty, so the three
  lists do not have the same length. The branch for a line without marker appends the
  line to an empty \<open>text\<close> without the two appends of \<open>None\<close> that the same branch makes
  when \<open>text\<close> is not empty: in the block of the utterance \<open>(a)\<close> in corner brackets and the
  line \<open>hello\<close>, the line \<open>hello\<close> gets its \<open>None\<close> in \<open>Name\<close> and in \<open>voice tag\<close>.
\<close>

theorem process_content_plain_block_misaligned:
  "process_content (PyList [of_ascii ''hello'']) =
     [\<lparr>ele_text_label = None, ele_Name = [], ele_voice_tag = [],
       ele_text = [of_ascii ''hello'']\<rparr>] \<and>
   \<not> aligned (hd (process_content (PyList [of_ascii ''hello'']))) \<and>
   process_content (PyList [[12300, 97, 12301, 10] @ of_ascii ''hello'']) =
     [\<lparr>ele_text_label = None, ele_Name = [None, None], ele_voice_tag = [None, None],
       ele_text = [[12300, 97, 12301], of_ascii ''hello'']\<rparr>]"
  by (simp add: extractor_eval aligned_def)

subsection \<open>An unreadable file\<close>

text \<open>
  C2 on the code: for a file whose reading raises, \<open>extract_pre_content\<close> returns the
  string \<open><Encoding Error>\<close>, which is true in \<open>if pre_contents:\<close>, so \<open>process_folder\<close>
  saves a JSON file for it; \<open>process_content\<close> walks the sixteen characters of the string
  and makes one record of each. Nothing prints the string.
\<close>

theorem process_folder_unreadable_file_saved:
  assumes "read_text f = None"
    and "write_error os
           (splitext_root os (path_join os out_path (walk_name f)) @ of_ascii ''.json'') = None"
  shows "process_folder os [f] out_path =
     \<lparr>saved = [(splitext_root os (path_join os out_path (walk_name f)) @ of_ascii ''.json'',
                map (\<lambda>c. \<lparr>ele_text_label = None, ele_Name = [], ele_voice_tag = [],
                          ele_text = [[c]]\<rparr>) ENCODING_ERROR)],
       printed = [of_ascii ''Processing file: '' @ path_join os (walk_root f) (walk_name f),
                  of_ascii ''Content saved to '' @
                    splitext_root os (path_join os out_path (walk_name f)) @
                    of_ascii ''.json'']\<rparr> \<and>
     length ENCODING_ERROR = 16"
proof -
  have "process_content (PyStr ENCODING_ERROR) =
      map (\<lambda>c. \<lparr>ele_text_label = None, ele_Name = [], ele_voice_tag = [],
                          ele_text = [[c]]\<rparr>) ENCODING_ERROR"
    by (simp add: ENCODING_ERROR_def extractor_eval)
  with assms show ?thesis
    by (simp add: process_folder_def process_file_def extract_pre_content_def
        save_content_to_json_def print_def Let_def)
      (simp add: ENCODING_ERROR_def of_ascii_def)
qed

theorem process_folder_unreadable_file_saved_witness:
  "saved (process_folder posix
      [\<lparr>walk_root = of_ascii ''in'', walk_name = of_ascii ''a.nss'', read_text = None\<rparr>]
      (of_ascii ''out'')) =
     [(of_ascii ''out/a.json'',
       map (\<lambda>c. \<lparr>ele_text_label = None, ele_Name = [], ele_voice_tag = [],
                          ele_text = [[c]]\<rparr>) ENCODING_ERROR)]"
  using process_folder_unreadable_file_saved[of
      "\<lparr>walk_root = of_ascii ''in'', walk_name = of_ascii ''a.nss'', read_text = None\<rparr>"
      posix "of_ascii ''out''"]
  by (simp add: posix_def posix_join_def posix_splitext_root_def of_ascii_def)

subsection \<open>Continuation lines\<close>

text \<open>
  C3, as the claim states it, fails: for the block of the two lines \<open>(a\<close> and \<open>b)\<close>, where
  \<open>(\<close> and \<open>)\<close> stand for the corner brackets U+300C and U+300D, \<open>text\<close> is the one string
  \<open>(a\nb)\<close>, with the opening bracket that the line had, and not \<open>a\nb)\<close>.
\<close>

theorem continuation_block_keeps_open_quote:
  "ele_text (process_entry [12300, 97, 10, 98, 12301]) = [[12300, 97, 10, 98, 12301]] \<and>
   ele_text (process_entry [12300, 97, 10, 98, 12301]) \<noteq> [[97, 10, 98, 12301]]"
  by (simp add: extractor_eval)

text \<open>
  C3, amended: parsing that block yields \<open>text == ["(a\nb)"]\<close>, the lines unchanged; and
  for every record and every line without marker, when \<open>text\<close> is not empty and its last
  entry has no closing bracket, the line is appended to that entry after a line break
  and no list of the record changes its length.
\<close>

theorem continuation_line_joined:
  "process_content (PyList [[12300, 97, 10, 98, 12301]]) =
     [\<lparr>ele_text_label = None, ele_Name = [None], ele_voice_tag = [None],
       ele_text = [[12300, 97, 10, 98, 12301]]\<rparr>] \<and>
   (\<forall>e line.
      line \<noteq> [] \<and> \<not> str_in TEXT_LABEL_MARK line \<and> \<not> str_in QUOTE_OPEN line \<and>
      \<not> str_in NAME_OPEN line \<and> \<not> str_in VOICE_MARK line \<and>
      ele_text e \<noteq> [] \<and> \<not> str_in QUOTE_CLOSE (last (ele_text e)) \<longrightarrow>
      process_line e line =
        e\<lparr>ele_text := butlast (ele_text e) @ [last (ele_text e) @ [10] @ line]\<rparr> \<and>
      length (ele_text (process_line e line)) = length (ele_text e))"
proof -
  have "process_content (PyList [[12300, 97, 10, 98, 12301]]) =
     [\<lparr>ele_text_label = None, ele_Name = [None], ele_voice_tag = [None],
       ele_text = [[12300, 97, 10, 98, 12301]]\<rparr>]"
    by (simp add: extractor_eval)
  moreover have "process_line e line =
        e\<lparr>ele_text := butlast (ele_text e) @ [last (ele_text e) @ [10] @ line]\<rparr> \<and>
      length (ele_text (process_line e line)) = length (ele_text e)"
    if "line \<noteq> []" "\<not> str_in TEXT_LABEL_MARK line" "\<not> str_in QUOTE_OPEN line"
      "\<not> str_in NAME_OPEN line" "\<not> str_in VOICE_MARK line"
      "ele_text e \<noteq> []" "\<not> str_in QUOTE_CLOSE (last (ele_text e))" for e line
    using that by (simp add: process_line_def)
  ultimately show ?thesis by blast
qed

theorem continuation_line_joined_witness:
  "process_line \<lparr>ele_text_label = None, ele_Name = [None], ele_voice_tag = [None],
       ele_text = [[12300, 97]]\<rparr> [98, 12301] =
     \<lparr>ele_text_label = None, ele_Name = [None], ele_voice_tag = [None],
       ele_text = [[12300, 97, 10, 98, 12301]]\<rparr>"
  using continuation_line_joined
  by (simp add: marker_defs sublist_code)

subsection \<open>The label of a block\<close>

text \<open>
  C6, as the claim states it, fails: in a block with the two label lines \<open>[text001]\<close> and
  \<open>[text002]\<close> the label of the record is the second.
\<close>

theorem text_label_second_wins:
  "ele_text_label (process_entry (of_ascii ''[text001]'' @ [10] @ of_ascii ''[text002]'')) =
     Some (of_ascii ''[text002]'') \<and>
   ele_text_label (process_entry (of_ascii ''[text001]'' @ [10] @ of_ascii ''[text002]'')) \<noteq>
     Some (of_ascii ''[text001]'')"
  by (simp add: extractor_eval)

text \<open>
  C6, amended: for every block, the label of the record is the last line of the block
  that contains the label marker \<open>[text\<close>, and \<open>None\<close> when no line contains it: every
  label line overwrites the label.
\<close>

theorem text_label_is_last_label_line:
  "ele_text_label (process_entry entry) =
     (if filter (str_in TEXT_LABEL_MARK) (splitlines entry) = [] then None
      else Some (last (filter (str_in TEXT_LABEL_MARK) (splitlines entry))))"
  by (simp add: process_entry_def process_lines_def text_label_foldl new_ele_def)

subsection \<open>The scenario of a name line and two utterances\<close>

text \<open>
  C9: the block of the name line \<open>Name\<close> in lenticular brackets and the two utterances
  \<open>Hello\<close> and \<open>world\<close> in corner brackets yields the name and \<open>None\<close> in \<open>Name\<close>, the two
  utterances in \<open>text\<close>, and \<open>None\<close> twice in \<open>voice tag\<close>.
\<close>

theorem process_content_name_hello_world:
  "process_content (PyList [NAME_HELLO_WORLD]) =
     [\<lparr>ele_text_label = None,
       ele_Name = [Some ([12304] @ of_ascii ''Name'' @ [12305]), None],
       ele_voice_tag = [None, None],
       ele_text = [[12300] @ of_ascii ''Hello'' @ [12301],
                   [12300] @ of_ascii ''world'' @ [12301]]\<rparr>]"
  by (simp add: NAME_HELLO_WORLD_def extractor_eval)

section \<open>Properties of the translator\<close>

lemmas sample_eval = sample_env_def sample_loads_def sample_dumps_def scripted_def always_def
  SAMPLE_DOCS_def YES_TARO_BODY_def YES_TARO_def quoted_def fenced_def EXPECTING_VALUE_def
  HAI_def TARO_JP_def SAMPLE_ELEMENT_def SAMPLE_REQUEST_def SAMPLE_PROMPT_def no_trace_def

lemmas key_defs = TEXT_def TEXT_LABEL_def VOICE_TAG_def NAME_def CONTENT_def

lemmas translator_eval = loadJsonWithReTry_def json_loads_def do_with_text_def
  getFixJsonPrompt_def retry_failed_def strip_def is_space_def findall_json_def
  findall_lazy.simps FENCE_OPEN_def FENCE_CLOSE_def AYA_EXP_def of_ascii_def
  INDEX_ERROR_TEXT_def Let_def

lemmas driver_eval = translate_element_def get_translate_with_glossary_prompt_def
  get_instruction_prompt_def copy_key_def key_defs

subsection \<open>Fenced regions\<close>

lemma split_at_first_Some:
  "split_at_first p s = Some (b, a) \<Longrightarrow> s = b @ p @ a"
proof (induction s arbitrary: b)
  case Nil
  then show ?case by (auto split: if_splits)
next
  case (Cons x xs)
  show ?case
  proof (cases "prefix p (x # xs)")
    case True
    with Cons.prems show ?thesis by (auto simp: prefix_def)
  next
    case False
    with Cons.prems obtain b' where "split_at_first p xs = Some (b', a)" "b = x # b'"
      by auto
    with Cons.IH show ?thesis by auto
  qed
qed

lemma split_at_first_None_iff:
  "split_at_first p s = None \<longleftrightarrow> \<not> sublist p s"
  by (induction s) (auto simp: sublist_Cons_right)

lemma split_at_first_leftmost:
  "split_at_first p s = Some (b, a) \<Longrightarrow> s = b' @ p @ a' \<Longrightarrow> length b \<le> length b'"
proof (induction s arbitrary: b b')
  case Nil
  then show ?case by (auto split: if_splits)
next
  case (Cons x xs)
  show ?case
  proof (cases "prefix p (x # xs)")
    case True
    with Cons.prems(1) show ?thesis by simp
  next
    case False
    with Cons.prems(1) obtain b0 where b0: "split_at_first p xs = Some (b0, a)" "b = x # b0"
      by auto
    from False Cons.prems(2) have "b' \<noteq> []" by (auto simp: prefix_def)
    then obtain b1 where b1: "b' = x # b1" using Cons.prems(2) by (cases b') auto
    with Cons.prems(2) have "xs = b1 @ p @ a'" by simp
    from Cons.IH[OF b0(1) this] b0(2) b1 show ?thesis by simp
  qed
qed

lemma split_at_first_Nil [simp]: "split_at_first [] s = Some ([], s)"
  by (cases s) auto

text \<open>\<open>findall_json\<close> finds nothing exactly in the texts without a region that starts with
  the opening fence and ends with the closing fence.\<close>

lemma findall_json_Nil_iff:
  "findall_json s = [] \<longleftrightarrow> \<not> (\<exists>a b c. s = a @ FENCE_OPEN @ b @ FENCE_CLOSE @ c)"
proof
  assume nil: "findall_json s = []"
  show "\<not> (\<exists>a b c. s = a @ FENCE_OPEN @ b @ FENCE_CLOSE @ c)"
  proof
    assume "\<exists>a b c. s = a @ FENCE_OPEN @ b @ FENCE_CLOSE @ c"
    then obtain a b c where s: "s = a @ FENCE_OPEN @ b @ FENCE_CLOSE @ c" by blast
    then have "sublist FENCE_OPEN s" by (auto simp: sublist_def)
    then obtain b0 r1 where sp: "split_at_first FENCE_OPEN s = Some (b0, r1)"
      using split_at_first_None_iff[of FENCE_OPEN s] by (cases "split_at_first FENCE_OPEN s") auto
    from split_at_first_Some[OF sp] have s': "s = b0 @ FENCE_OPEN @ r1" .
    from split_at_first_leftmost[OF sp s] have le: "length b0 \<le> length a" .
    from s s' have "b0 @ FENCE_OPEN @ r1 = a @ FENCE_OPEN @ b @ FENCE_CLOSE @ c" by simp
    with le obtain a2 where a2: "a = b0 @ a2"
      by (metis append_eq_append_conv_if append_take_drop_id)
    with s s' have "FENCE_OPEN @ r1 = a2 @ FENCE_OPEN @ b @ FENCE_CLOSE @ c" by simp
    then have "r1 = drop (length FENCE_OPEN) (a2 @ FENCE_OPEN) @ b @ FENCE_CLOSE @ c"
      by (metis append_eq_conv_conj append.assoc drop_append length_append diff_is_0_eq le_add2
          drop0 append_Nil)
    then have "sublist FENCE_CLOSE r1" by (metis sublist_appendI append.assoc)
    then obtain body r3 where "split_at_first FENCE_CLOSE r1 = Some (body, r3)"
      using split_at_first_None_iff[of FENCE_CLOSE r1]
      by (cases "split_at_first FENCE_CLOSE r1") auto
    with sp have "findall_json s \<noteq> []"
      by (simp add: findall_json_def findall_lazy.simps[of _ _ _ s] FENCE_OPEN_def)
    with nil show False by simp
  qed
next
  assume no: "\<not> (\<exists>a b c. s = a @ FENCE_OPEN @ b @ FENCE_CLOSE @ c)"
  show "findall_json s = []"
  proof (rule ccontr)
    assume ne: "findall_json s \<noteq> []"
    then obtain b0 r1 body r3 where "split_at_first FENCE_OPEN s = Some (b0, r1)"
      and "split_at_first FENCE_CLOSE r1 = Some (body, r3)"
      by (auto simp: findall_json_def findall_lazy.simps[of _ _ _ s]
          split: option.splits if_splits)
    from this[THEN split_at_first_Some] have "s = b0 @ FENCE_OPEN @ body @ FENCE_CLOSE @ r3"
      by simp
    with no show False by blast
  qed
qed

lemma THREE_REGIONS_findall:
  "findall_json THREE_REGIONS = [of_ascii ''1'', of_ascii ''x'', of_ascii ''3'']"
  by (simp add: THREE_REGIONS_def translator_eval fenced_def)

lemma SORRY_REPLY_no_fence:
  "\<not> (\<exists>a b c. strip SORRY_REPLY = a @ FENCE_OPEN @ b @ FENCE_CLOSE @ c)"
  unfolding findall_json_Nil_iff[symmetric]
  by (simp add: SORRY_REPLY_def strip_def is_space_def findall_json_def findall_lazy.simps
      FENCE_OPEN_def FENCE_CLOSE_def of_ascii_def)

subsection \<open>The repair of a payload\<close>

text \<open>
  C4: when the body does not parse, the generation service answers the repair request
  with a text whose first fenced region does not parse either, \<open>loadJsonWithReTry\<close>
  returns the failure message with a trace that has grown by the one repair request and
  by the two parse attempts, the body and the region of the reply. And whatever the
  inputs, a call that returns has made at most one request and at most two parse
  attempts, and exactly one request when it returns a failure.
\<close>

theorem loadJsonWithReTry_one_repair:
  "(loads env (strip json_str) = Inl e \<longrightarrow>
    chat env (length (chat_log w)) AYA_EXP (getFixJsonPrompt (strip json_str) e) = Some reply \<longrightarrow>
    findall_json (strip reply) = json_str' # others \<longrightarrow>
    loads env (strip json_str') = Inl e' \<longrightarrow>
    loadJsonWithReTry env file_name json_index json_str w =
      Inr ((JNull, Some (failure_message json_index file_name json_str' e')),
           w\<lparr>chat_log := chat_log w @ [(AYA_EXP, getFixJsonPrompt (strip json_str) e)],
             parse_log := parse_log w @ [strip json_str, strip json_str']\<rparr>)) \<and>
   (\<forall>j f w'. loadJsonWithReTry env file_name json_index json_str w = Inr ((j, f), w') \<longrightarrow>
      length (chat_log w') \<le> length (chat_log w) + 1 \<and>
      length (parse_log w') \<le> length (parse_log w) + 2 \<and>
      (f \<noteq> None \<longrightarrow> length (chat_log w') = length (chat_log w) + 1))"
  by (auto simp: loadJsonWithReTry_def json_loads_def do_with_text_def retry_failed_def Let_def
      split: sum.splits option.splits list.splits)

theorem loadJsonWithReTry_one_repair_witness:
  "loadJsonWithReTry (sample_env (scripted [fenced (of_ascii ''y'')])) (of_ascii ''a.json'') 0
      (of_ascii '' x '') no_trace =
     Inr ((JNull, Some (failure_message 0 (of_ascii ''a.json'') (of_ascii ''y'') EXPECTING_VALUE)),
          \<lparr>chat_log = [(AYA_EXP, getFixJsonPrompt (of_ascii ''x'') EXPECTING_VALUE)],
           parse_log = [of_ascii ''x'', of_ascii ''y'']\<rparr>)"
  using loadJsonWithReTry_one_repair[of "sample_env (scripted [fenced (of_ascii ''y'')])"
      "of_ascii '' x ''" EXPECTING_VALUE no_trace "fenced (of_ascii ''y'')" "of_ascii ''y''" "[]"
      EXPECTING_VALUE "of_ascii ''a.json''" 0]
  by (simp add: sample_eval strip_def is_space_def findall_json_def findall_lazy.simps
      FENCE_OPEN_def FENCE_CLOSE_def of_ascii_def)

subsection \<open>The regions of a text\<close>

lemma failure_message_truthy [simp]:
  "truthy_failure (Some (failure_message i f b e))"
  by (simp add: failure_message_def of_ascii_def)

lemma region_outcome_Failed:
  "region_outcome env source n index body = Some (Failed m) \<Longrightarrow> truthy_failure (Some m)"
  by (auto simp: region_outcome_def failure_message_def of_ascii_def
      split: sum.splits option.splits list.splits)

lemma values_of_Cons: "values_of (oc # ocs) = values_of [oc] @ values_of ocs"
  by (cases oc) (simp_all add: values_of_def map_filter_simps)

lemma failures_of_Cons: "failures_of (oc # ocs) = failures_of [oc] @ failures_of ocs"
  by (cases oc) (simp_all add: failures_of_def map_filter_simps)

text \<open>One call of \<open>loadJsonWithReTry\<close> gives the outcome of its region, and makes one call
  to the service when the region needs a repair.\<close>

lemma loadJsonWithReTry_outcome:
  "case region_outcome env source (length (chat_log w)) index body of
     None \<Rightarrow> loadJsonWithReTry env source index body w = Inl ServiceError
   | Some oc \<Rightarrow>
       (\<exists>w'. loadJsonWithReTry env source index body w = Inr (result_of oc, w') \<and>
             length (chat_log w') =
               (if needs_repair env body then length (chat_log w) + 1 else length (chat_log w)))"
  by (auto simp: region_outcome_def loadJsonWithReTry_def json_loads_def do_with_text_def
      retry_failed_def needs_repair_def
      split: sum.splits option.splits list.splits)

lemma extract_blocks_outcomes:
  "case region_outcomes env source (length (chat_log w)) index bodies of
     None \<Rightarrow>
       extract_blocks env source index bodies (combined_list, failure_log, w) = Inl ServiceError
   | Some ocs \<Rightarrow>
       (\<exists>w'. extract_blocks env source index bodies (combined_list, failure_log, w) =
               Inr (combined_list @ values_of ocs, failure_log @ failures_of ocs, w') \<and>
             length (chat_log w') =
               length (chat_log w) + length (filter (needs_repair env) bodies))"
proof (induction bodies arbitrary: index combined_list failure_log w)
  case Nil
  show ?case by (simp add: values_of_def failures_of_def)
next
  case (Cons body bodies)
  show ?case
  proof (cases "region_outcome env source (length (chat_log w)) index body")
    case None
    with loadJsonWithReTry_outcome[where env = env and source = source and w = w
        and index = index and body = body]
    show ?thesis by simp
  next
    case (Some oc)
    with loadJsonWithReTry_outcome[where env = env and source = source and w = w
        and index = index and body = body]
    obtain w1 where l: "loadJsonWithReTry env source index body w = Inr (result_of oc, w1)"
      and n1: "length (chat_log w1) =
                 (if needs_repair env body then length (chat_log w) + 1 else length (chat_log w))"
      by auto
    let ?c = "combined_list @ values_of [oc]"
    let ?f = "failure_log @ failures_of [oc]"
    have step: "extract_blocks env source index (body # bodies) (combined_list, failure_log, w) =
          extract_blocks env source (index + 1) bodies (?c, ?f, w1)"
      using l region_outcome_Failed[of env source "length (chat_log w)" index body] Some
      by (cases oc) (simp_all add: values_of_def failures_of_def map_filter_simps)
    show ?thesis
    proof (cases "region_outcomes env source (length (chat_log w1)) (index + 1) bodies")
      case None
      with Cons.IH[where w = w1 and index = "index + 1" and combined_list = ?c
          and failure_log = ?f]
        \<open>region_outcome env source (length (chat_log w)) index body = Some oc\<close> step n1
      show ?thesis by simp
    next
      case (Some ocs)
      with Cons.IH[where w = w1 and index = "index + 1" and combined_list = ?c
          and failure_log = ?f]
      obtain w' where
        "extract_blocks env source (index + 1) bodies (?c, ?f, w1) =
           Inr (?c @ values_of ocs, ?f @ failures_of ocs, w')"
        and "length (chat_log w') =
               length (chat_log w1) + length (filter (needs_repair env) bodies)"
        by auto
      with \<open>region_outcome env source (length (chat_log w)) index body = Some oc\<close> Some step n1
      show ?thesis
        by (simp add: values_of_Cons[of oc ocs] failures_of_Cons[of oc ocs])
    qed
  qed
qed

lemma region_outcomes_length:
  "region_outcomes env source n index bodies = Some ocs \<Longrightarrow> length ocs = length bodies"
  by (induction bodies arbitrary: n index ocs) (auto split: option.splits)

lemma region_outcomes_nth:
  "region_outcomes env source n index bodies = Some ocs \<Longrightarrow> i < length bodies \<Longrightarrow>
     region_outcome env source (n + length (filter (needs_repair env) (take i bodies)))
       (index + i) (bodies ! i) = Some (ocs ! i)"
proof (induction bodies arbitrary: n index ocs i)
  case Nil
  then show ?case by simp
next
  case (Cons body bodies)
  from Cons.prems(1) obtain oc ocs' where oc: "region_outcome env source n index body = Some oc"
    and rest: "region_outcomes env source (if needs_repair env body then n + 1 else n)
                 (index + 1) bodies = Some ocs'"
    and ocs: "ocs = oc # ocs'"
    by (auto split: option.splits)
  show ?case
  proof (cases i)
    case 0
    with oc ocs show ?thesis by simp
  next
    case (Suc j)
    with Cons.prems(2) have "j < length bodies" by simp
    from Cons.IH[OF rest this] Suc ocs show ?thesis
      by (cases "needs_repair env body") simp_all
  qed
qed

lemma values_failures_length:
  "length (values_of ocs) + length (failures_of ocs) = length ocs"
proof (induction ocs)
  case Nil
  show ?case by (simp add: values_of_def failures_of_def)
next
  case (Cons oc ocs)
  then show ?case by (cases oc) (simp_all add: values_of_def failures_of_def map_filter_simps)
qed

lemma region_outcome_responding:
  assumes "\<forall>n model prompt. chat env n model prompt \<noteq> None"
  shows "region_outcome env source n index body \<noteq> None"
proof (cases "loads env (strip body)")
  case (Inr v)
  then show ?thesis by (simp add: region_outcome_def)
next
  case (Inl e)
  from assms have "chat env n AYA_EXP (getFixJsonPrompt (strip body) e) \<noteq> None" by blast
  with Inl show ?thesis
    by (auto simp: region_outcome_def split: sum.splits list.splits)
qed

lemma region_outcomes_responding:
  "\<forall>n model prompt. chat env n model prompt \<noteq> None \<Longrightarrow>
     region_outcomes env source n index bodies \<noteq> None"
proof (induction bodies arbitrary: n index)
  case Nil
  show ?case by simp
next
  case (Cons body bodies)
  from region_outcome_responding[OF Cons.prems, of source n index body]
  obtain oc where "region_outcome env source n index body = Some oc" by auto
  moreover from Cons.IH[OF Cons.prems,
      of "if needs_repair env body then n + 1 else n" "index + 1"]
  obtain ocs where "region_outcomes env source (if needs_repair env body then n + 1 else n)
                      (index + 1) bodies = Some ocs" by auto
  ultimately show ?case by simp
qed

text \<open>
  C7, as the claim states it, fails. In a text of three regions whose second is not
  JSON, the second region is sent for repair: when the reply holds the fenced value
  \<open>2\<close>, the three regions are all returned parsed and no region is flagged as failed;
  and when the generation service raises, the extraction ends with that exception and
  returns nothing for the regions that parse.
\<close>

theorem extract_json_from_text_repaired_or_aborted:
  "extract_json_from_text (sample_env (scripted [fenced (of_ascii ''2'')])) (of_ascii ''raw.txt'')
      (Some THREE_REGIONS) (of_ascii ''out.json'') (of_ascii ''errors.txt'') no_trace =
     Inr ([JInt 1, JInt 2, JInt 3], [],
          \<lparr>chat_log = [(AYA_EXP, getFixJsonPrompt (of_ascii ''x'') EXPECTING_VALUE)],
           parse_log = [of_ascii ''1'', of_ascii ''x'', of_ascii ''2'', of_ascii ''3'']\<rparr>) \<and>
   extract_json_from_text (sample_env (scripted [])) (of_ascii ''raw.txt'')
      (Some THREE_REGIONS) (of_ascii ''out.json'') (of_ascii ''errors.txt'') no_trace =
     Inl ServiceError"
  by (simp add: extract_json_from_text_def THREE_REGIONS_findall)
     (simp add: translator_eval sample_eval)

text \<open>
  C7, amended: the extraction of a text with N fenced regions computes the outcomes of
  the regions, one for each region in the order of the regions. The outcome of region
  \<open>i\<close> is that of its own body and index, with the reply to its own repair request,
  whose number in the run counts the earlier regions that needed a repair: parsed when
  the body parses, whatever the other regions are; else recovered or failed, by the
  first fenced region of the reply. The list written to the output file is the values
  of the parsed and recovered regions and the error log is the messages of the failed
  regions, both in the order of the regions, N entries together, and the service is
  called once for every region that needs a repair. The extraction returns the two
  lists unless a file cannot be opened for writing or a string to write has a surrogate
  code point, and it ends with the exception of the service when the service raises on
  a repair request, which it does not when the service answers every request.
\<close>

theorem extract_json_from_text_regions:
  "(case region_outcomes env input_file (length (chat_log w)) 0 (findall_json content) of
      None \<Rightarrow>
        extract_json_from_text env input_file (Some content) out_json_file error_log_file w =
          Inl ServiceError
    | Some ocs \<Rightarrow>
        length ocs = length (findall_json content) \<and>
        length (values_of ocs) + length (failures_of ocs) = length (findall_json content) \<and>
        (\<forall>i < length (findall_json content).
           region_outcome env input_file
             (length (chat_log w) +
              length (filter (needs_repair env) (take i (findall_json content))))
             i (findall_json content ! i) = Some (ocs ! i)) \<and>
        (\<exists>w'. length (chat_log w') =
                length (chat_log w) +
                length (filter (needs_repair env) (findall_json content)) \<and>
              extract_json_from_text env input_file (Some content) out_json_file
                  error_log_file w =
                (if unwritable env out_json_file then Inl FileError
                 else if \<not> list_all json_encodable (values_of ocs) then Inl UnicodeEncodeError
                 else if failures_of ocs \<noteq> [] \<and> unwritable env error_log_file
                   then Inl FileError
                 else if failures_of ocs \<noteq> [] \<and> \<not> list_all str_encodable (failures_of ocs)
                   then Inl UnicodeEncodeError
                 else Inr (values_of ocs, failures_of ocs, w')))) \<and>
   ((\<forall>n model prompt. chat env n model prompt \<noteq> None) \<longrightarrow>
      region_outcomes env input_file (length (chat_log w)) 0 (findall_json content) \<noteq> None)"
proof (intro conjI impI)
  show "case region_outcomes env input_file (length (chat_log w)) 0 (findall_json content) of
      None \<Rightarrow>
        extract_json_from_text env input_file (Some content) out_json_file error_log_file w =
          Inl ServiceError
    | Some ocs \<Rightarrow>
        length ocs = length (findall_json content) \<and>
        length (values_of ocs) + length (failures_of ocs) = length (findall_json content) \<and>
        (\<forall>i < length (findall_json content).
           region_outcome env input_file
             (length (chat_log w) +
              length (filter (needs_repair env) (take i (findall_json content))))
             i (findall_json content ! i) = Some (ocs ! i)) \<and>
        (\<exists>w'. length (chat_log w') =
                length (chat_log w) +
                length (filter (needs_repair env) (findall_json content)) \<and>
              extract_json_from_text env input_file (Some content) out_json_file
                  error_log_file w =
                (if unwritable env out_json_file then Inl FileError
                 else if \<not> list_all json_encodable (values_of ocs) then Inl UnicodeEncodeError
                 else if failures_of ocs \<noteq> [] \<and> unwritable env error_log_file
                   then Inl FileError
                 else if failures_of ocs \<noteq> [] \<and> \<not> list_all str_encodable (failures_of ocs)
                   then Inl UnicodeEncodeError
                 else Inr (values_of ocs, failures_of ocs, w')))"
  proof (cases "region_outcomes env input_file (length (chat_log w)) 0 (findall_json content)")
    case None
    with extract_blocks_outcomes[where env = env and source = input_file and w = w
        and index = 0 and bodies = "findall_json content" and combined_list = "[]"
        and failure_log = "[]"]
    show ?thesis by (simp add: extract_json_from_text_def)
  next
    case (Some ocs)
    with extract_blocks_outcomes[where env = env and source = input_file and w = w
        and index = 0 and bodies = "findall_json content" and combined_list = "[]"
        and failure_log = "[]"]
    obtain w' where ex: "extract_blocks env input_file 0 (findall_json content) ([], [], w) =
        Inr (values_of ocs, failures_of ocs, w')"
      and n: "length (chat_log w') =
                length (chat_log w) + length (filter (needs_repair env) (findall_json content))"
      by auto
    have len: "length ocs = length (findall_json content)"
      using Some by (rule region_outcomes_length)
    have each: "\<forall>i < length (findall_json content).
           region_outcome env input_file
             (length (chat_log w) +
              length (filter (needs_repair env) (take i (findall_json content))))
             i (findall_json content ! i) = Some (ocs ! i)"
      using region_outcomes_nth[OF Some] by simp
    have written: "extract_json_from_text env input_file (Some content) out_json_file
                  error_log_file w =
                (if unwritable env out_json_file then Inl FileError
                 else if \<not> list_all json_encodable (values_of ocs) then Inl UnicodeEncodeError
                 else if failures_of ocs \<noteq> [] \<and> unwritable env error_log_file
                   then Inl FileError
                 else if failures_of ocs \<noteq> [] \<and> \<not> list_all str_encodable (failures_of ocs)
                   then Inl UnicodeEncodeError
                 else Inr (values_of ocs, failures_of ocs, w'))"
      using ex by (simp add: extract_json_from_text_def)
    from Some len each n written values_failures_length[of ocs] show ?thesis
      by auto
  qed
next
  assume "\<forall>n model prompt. chat env n model prompt \<noteq> None"
  then show "region_outcomes env input_file (length (chat_log w)) 0 (findall_json content) \<noteq> None"
    by (rule region_outcomes_responding)
qed

lemma THREE_REGIONS_outcomes:
  "region_outcomes (sample_env (always (fenced (of_ascii ''y'')))) (of_ascii ''raw.txt'') 0 0
      [of_ascii ''1'', of_ascii ''x'', of_ascii ''3''] =
   Some [Parsed (JInt 1),
         Failed (failure_message 1 (of_ascii ''raw.txt'') (of_ascii ''y'') EXPECTING_VALUE),
         Parsed (JInt 3)]"
  by (simp add: region_outcome_def needs_repair_def sample_eval strip_def is_space_def
      findall_json_def findall_lazy.simps FENCE_OPEN_def FENCE_CLOSE_def AYA_EXP_def of_ascii_def
      getFixJsonPrompt_def)

theorem extract_json_from_text_regions_witness:
  "(\<forall>n model prompt.
      chat (sample_env (always (fenced (of_ascii ''y'')))) n model prompt \<noteq> None) \<and>
   (\<exists>w'. length (chat_log w') = 1 \<and>
      extract_json_from_text (sample_env (always (fenced (of_ascii ''y''))))
        (of_ascii ''raw.txt'') (Some THREE_REGIONS) (of_ascii ''out.json'')
        (of_ascii ''errors.txt'') no_trace =
        Inr ([JInt 1, JInt 3],
             [failure_message 1 (of_ascii ''raw.txt'') (of_ascii ''y'') EXPECTING_VALUE], w'))"
proof -
  let ?env = "sample_env (always (fenced (of_ascii ''y'')))"
  let ?ocs = "[Parsed (JInt 1),
         Failed (failure_message 1 (of_ascii ''raw.txt'') (of_ascii ''y'') EXPECTING_VALUE),
         Parsed (JInt 3)]"
  have responding: "\<forall>n model prompt. chat ?env n model prompt \<noteq> None"
    by (simp add: sample_env_def always_def)
  have ocs: "region_outcomes ?env (of_ascii ''raw.txt'') (length (chat_log no_trace)) 0
      (findall_json THREE_REGIONS) = Some ?ocs"
    by (simp add: THREE_REGIONS_findall THREE_REGIONS_outcomes no_trace_def
        del: region_outcomes.simps)
  have vals: "values_of ?ocs = [JInt 1, JInt 3]"
    and fails: "failures_of ?ocs =
      [failure_message 1 (of_ascii ''raw.txt'') (of_ascii ''y'') EXPECTING_VALUE]"
    by (simp_all add: values_of_def failures_of_def map_filter_simps)
  have enc: "str_encodable
      (failure_message 1 (of_ascii ''raw.txt'') (of_ascii ''y'') EXPECTING_VALUE)"
    by (simp add: str_encodable_def failure_message_def EXPECTING_VALUE_def of_ascii_def)
  have rep: "length (filter (needs_repair ?env) (findall_json THREE_REGIONS)) = 1"
    by (simp add: THREE_REGIONS_findall needs_repair_def sample_eval strip_def is_space_def
        of_ascii_def)
  have open_ok: "\<not> unwritable ?env p" for p
    by (simp add: sample_env_def)
  note inst = extract_json_from_text_regions[where env = ?env
      and input_file = "of_ascii ''raw.txt''" and w = no_trace and content = THREE_REGIONS
      and out_json_file = "of_ascii ''out.json''" and error_log_file = "of_ascii ''errors.txt''",
      THEN conjunct1, unfolded ocs option.case rep vals fails]
  from inst obtain w' where len: "length (chat_log w') = length (chat_log no_trace) + 1"
    and ex: "extract_json_from_text ?env (of_ascii ''raw.txt'') (Some THREE_REGIONS)
        (of_ascii ''out.json'') (of_ascii ''errors.txt'') no_trace =
       (if unwritable ?env (of_ascii ''out.json'') then Inl FileError
        else if \<not> list_all json_encodable [JInt 1, JInt 3] then Inl UnicodeEncodeError
        else if [failure_message 1 (of_ascii ''raw.txt'') (of_ascii ''y'') EXPECTING_VALUE] \<noteq> []
                \<and> unwritable ?env (of_ascii ''errors.txt'')
          then Inl FileError
        else if [failure_message 1 (of_ascii ''raw.txt'') (of_ascii ''y'') EXPECTING_VALUE] \<noteq> []
                \<and> \<not> list_all str_encodable
                     [failure_message 1 (of_ascii ''raw.txt'') (of_ascii ''y'') EXPECTING_VALUE]
          then Inl UnicodeEncodeError
        else Inr ([JInt 1, JInt 3],
                  [failure_message 1 (of_ascii ''raw.txt'') (of_ascii ''y'') EXPECTING_VALUE],
                  w'))"
    by blast
  from ex enc have "extract_json_from_text ?env (of_ascii ''raw.txt'') (Some THREE_REGIONS)
        (of_ascii ''out.json'') (of_ascii ''errors.txt'') no_trace =
        Inr ([JInt 1, JInt 3],
             [failure_message 1 (of_ascii ''raw.txt'') (of_ascii ''y'') EXPECTING_VALUE], w')"
    by (simp add: open_ok)
  with len have "\<exists>w'. length (chat_log w') = length (chat_log no_trace) + 1 \<and>
      extract_json_from_text ?env (of_ascii ''raw.txt'') (Some THREE_REGIONS)
        (of_ascii ''out.json'') (of_ascii ''errors.txt'') no_trace =
        Inr ([JInt 1, JInt 3],
             [failure_message 1 (of_ascii ''raw.txt'') (of_ascii ''y'') EXPECTING_VALUE], w')"
    by blast
  with responding show ?thesis by (simp add: no_trace_def)
qed

subsection \<open>The records of the translation\<close>

lemma map_of_dict_set:
  "map_of (dict_set kvs k v) k' = (if k' = k then Some v else map_of kvs k')"
  by (induction kvs) auto

lemma SAMPLE_PROMPT_built:
  "get_translate_with_glossary_prompt (sample_env service) []
      (dumps (sample_env service) (Some 4) (JObj [(TEXT, JArr [JStr HAI])]))
      (VN_NSS_JSON_TRANSLATION_INSTRUCTION (sample_env service)) = Inr SAMPLE_PROMPT"
  by (simp add: get_translate_with_glossary_prompt_def get_instruction_prompt_def
      sample_env_def sample_dumps_def SAMPLE_PROMPT_def of_ascii_def)

lemma YES_TARO_translation:
  "translate_element (sample_env (scripted [YES_TARO_REPLY])) [] (of_ascii ''a.json'') 0
      SAMPLE_ELEMENT ([], [], no_trace) =
   Inr ([JObj [(TEXT, JArr [JStr (of_ascii ''Yes'')]), (NAME, JArr [JStr TARO_JP]),
               (TEXT_LABEL, JStr (of_ascii ''[text001]'')), (VOICE_TAG, JArr [JNull])]], [],
        \<lparr>chat_log = [(AYA_EXP, SAMPLE_PROMPT)], parse_log = [YES_TARO_BODY]\<rparr>)"
  by (simp add: driver_eval translator_eval sample_eval YES_TARO_REPLY_def)

text \<open>
  C5, as the claim states it, fails: for the record with the name U+592A U+90CE, when the
  reply holds the translation \<open>Yes\<close> and the name \<open>Taro\<close>, the record appended to the
  output has the translated text and the name of the original record, not the name of
  the parsed payload.
\<close>

theorem translate_element_Name_not_from_payload:
  "translate_element (sample_env (scripted [YES_TARO_REPLY])) [] (of_ascii ''a.json'') 0
      SAMPLE_ELEMENT ([], [], no_trace) =
     Inr ([JObj [(TEXT, JArr [JStr (of_ascii ''Yes'')]), (NAME, JArr [JStr TARO_JP]),
                 (TEXT_LABEL, JStr (of_ascii ''[text001]'')), (VOICE_TAG, JArr [JNull])]], [],
          \<lparr>chat_log = [(AYA_EXP, SAMPLE_PROMPT)], parse_log = [YES_TARO_BODY]\<rparr>) \<and>
   loads (sample_env (scripted [YES_TARO_REPLY])) YES_TARO_BODY = Inr YES_TARO \<and>
   py_getitem YES_TARO NAME = Inr (JArr [JStr (of_ascii ''Taro'')]) \<and>
   py_getitem SAMPLE_ELEMENT NAME = Inr (JArr [JStr TARO_JP]) \<and>
   JArr [JStr TARO_JP] \<noteq> JArr [JStr (of_ascii ''Taro'')]"
  by (simp add: YES_TARO_translation)
     (simp add: sample_eval key_defs of_ascii_def)

text \<open>
  C5, amended: for every source record that is a dict with the keys \<open>text\<close>,
  \<open>text label\<close>, \<open>voice tag\<close> and \<open>Name\<close>, when the translation response has a fenced region
  that is parsed or recovered to a JSON object, the driver appends to the output of the
  file that object with its keys \<open>text label\<close>, \<open>voice tag\<close> and \<open>Name\<close> set to the values
  of the original record: \<open>text\<close> and every other key come from the parsed payload, and
  \<open>text label\<close>, \<open>voice tag\<close> and \<open>Name\<close> are copied through from the original record
  unchanged. The failure log is left as it was.
\<close>

theorem translate_element_copies_original_Name:
  assumes "map_of ekvs TEXT = Some texts"
    and "map_of ekvs TEXT_LABEL = Some label"
    and "map_of ekvs VOICE_TAG = Some voice"
    and "map_of ekvs NAME = Some name"
    and "get_translate_with_glossary_prompt env loaded_glossary
           (dumps env (Some 4) (JObj [(TEXT, texts)]))
           (VN_NSS_JSON_TRANSLATION_INSTRUCTION env) = Inr prompt"
    and "do_with_text env prompt AYA_EXP w = Inr (response, w1)"
    and "findall_json response = block # others"
    and "loadJsonWithReTry env file_name index block w1 = Inr ((JObj pkvs, None), w2)"
  shows "\<exists>out.
           translate_element env loaded_glossary file_name index (JObj ekvs)
             (collected_json, failure_log, w) =
             Inr (collected_json @ [JObj out], failure_log, w2) \<and>
           map_of out TEXT_LABEL = Some label \<and>
           map_of out VOICE_TAG = Some voice \<and>
           map_of out NAME = Some name \<and>
           (\<forall>k. k \<noteq> TEXT_LABEL \<and> k \<noteq> VOICE_TAG \<and> k \<noteq> NAME \<longrightarrow> map_of out k = map_of pkvs k)"
proof -
  let ?out = "dict_set (dict_set (dict_set pkvs TEXT_LABEL label) VOICE_TAG voice) NAME name"
  from assms(1) have ne: "ekvs \<noteq> []" by auto
  have distinct_keys: "TEXT_LABEL \<noteq> VOICE_TAG" "TEXT_LABEL \<noteq> NAME" "VOICE_TAG \<noteq> NAME"
    by (simp_all add: key_defs of_ascii_def)
  from assms ne have "translate_element env loaded_glossary file_name index (JObj ekvs)
             (collected_json, failure_log, w) =
             Inr (collected_json @ [JObj ?out], failure_log, w2)"
    by (simp add: translate_element_def copy_key_def)
  moreover have "map_of ?out TEXT_LABEL = Some label" "map_of ?out VOICE_TAG = Some voice"
    "map_of ?out NAME = Some name"
    using distinct_keys by (simp_all add: map_of_dict_set)
  moreover have
    "\<forall>k. k \<noteq> TEXT_LABEL \<and> k \<noteq> VOICE_TAG \<and> k \<noteq> NAME \<longrightarrow> map_of ?out k = map_of pkvs k"
    by (simp add: map_of_dict_set)
  ultimately show ?thesis by blast
qed

theorem translate_element_copies_original_Name_witness:
  "\<exists>out.
     translate_element (sample_env (scripted [YES_TARO_REPLY])) [] (of_ascii ''a.json'') 0
       SAMPLE_ELEMENT ([], [], no_trace) =
       Inr ([] @ [JObj out], [],
            \<lparr>chat_log = [(AYA_EXP, SAMPLE_PROMPT)], parse_log = [YES_TARO_BODY]\<rparr>) \<and>
     map_of out TEXT_LABEL = Some (JStr (of_ascii ''[text001]'')) \<and>
     map_of out VOICE_TAG = Some (JArr [JNull]) \<and>
     map_of out NAME = Some (JArr [JStr TARO_JP]) \<and>
     (\<forall>k. k \<noteq> TEXT_LABEL \<and> k \<noteq> VOICE_TAG \<and> k \<noteq> NAME \<longrightarrow>
          map_of out k = map_of [(TEXT, JArr [JStr (of_ascii ''Yes'')]),
                                 (NAME, JArr [JStr (of_ascii ''Taro'')])] k)"
proof -
  let ?env = "sample_env (scripted [YES_TARO_REPLY])"
  let ?ekvs = "[(TEXT_LABEL, JStr (of_ascii ''[text001]'')), (NAME, JArr [JStr TARO_JP]),
                (VOICE_TAG, JArr [JNull]), (TEXT, JArr [JStr HAI])]"
  let ?w1 = "\<lparr>chat_log = [(AYA_EXP, SAMPLE_PROMPT)], parse_log = []\<rparr>"
  have h1: "map_of ?ekvs TEXT = Some (JArr [JStr HAI])"
    and h2: "map_of ?ekvs TEXT_LABEL = Some (JStr (of_ascii ''[text001]''))"
    and h3: "map_of ?ekvs VOICE_TAG = Some (JArr [JNull])"
    and h4: "map_of ?ekvs NAME = Some (JArr [JStr TARO_JP])"
    by (simp_all add: key_defs of_ascii_def)
  have h6: "do_with_text ?env SAMPLE_PROMPT AYA_EXP no_trace = Inr (strip YES_TARO_REPLY, ?w1)"
    by (simp add: do_with_text_def sample_env_def scripted_def no_trace_def)
  have h7: "findall_json (strip YES_TARO_REPLY) = ([10] @ YES_TARO_BODY @ [10]) # []"
    by (simp add: translator_eval sample_eval YES_TARO_REPLY_def)
  have h8: "loadJsonWithReTry ?env (of_ascii ''a.json'') 0 ([10] @ YES_TARO_BODY @ [10]) ?w1 =
      Inr ((JObj [(TEXT, JArr [JStr (of_ascii ''Yes'')]), (NAME, JArr [JStr (of_ascii ''Taro'')])],
            None),
           \<lparr>chat_log = [(AYA_EXP, SAMPLE_PROMPT)], parse_log = [YES_TARO_BODY]\<rparr>)"
    by (simp add: translator_eval sample_eval key_defs)
  from translate_element_copies_original_Name[OF h1 h2 h3 h4 SAMPLE_PROMPT_built h6 h7 h8,
      of "[]" "[]"]
  show ?thesis by (simp add: SAMPLE_ELEMENT_def)
qed

text \<open>
  C10: for every source record that is true and has the key \<open>text\<close>, when the generation
  service answers with a text that, stripped, has no region between an opening fence
  and a closing fence, the driver returns the output list and the failure log of the
  file as they were; only the call to the service is added to the trace.
\<close>

theorem translate_element_no_fence_dropped:
  assumes "truthy element"
    and "py_getitem element TEXT = Inr texts"
    and "get_translate_with_glossary_prompt env loaded_glossary
           (dumps env (Some 4) (JObj [(TEXT, texts)]))
           (VN_NSS_JSON_TRANSLATION_INSTRUCTION env) = Inr prompt"
    and "chat env (length (chat_log w)) AYA_EXP prompt = Some reply"
    and "\<not> (\<exists>a b c. strip reply = a @ FENCE_OPEN @ b @ FENCE_CLOSE @ c)"
  shows "translate_element env loaded_glossary file_name index element
           (collected_json, failure_log, w) =
         Inr (collected_json, failure_log, w\<lparr>chat_log := chat_log w @ [(AYA_EXP, prompt)]\<rparr>)"
proof -
  from assms(5) have "findall_json (strip reply) = []" by (simp add: findall_json_Nil_iff)
  with assms(1-4) show ?thesis
    by (simp add: translate_element_def do_with_text_def)
qed

theorem translate_element_no_fence_dropped_witness:
  "translate_element (sample_env (scripted [SORRY_REPLY])) [] (of_ascii ''a.json'') 0
      SAMPLE_ELEMENT ([], [], no_trace) =
   Inr ([], [], \<lparr>chat_log = [(AYA_EXP, SAMPLE_PROMPT)], parse_log = []\<rparr>)"
  using translate_element_no_fence_dropped[of SAMPLE_ELEMENT "JArr [JStr HAI]"
      "sample_env (scripted [SORRY_REPLY])" "[]" _ no_trace SORRY_REPLY "of_ascii ''a.json''" 0
      "[]" "[]", OF _ _ SAMPLE_PROMPT_built _ SORRY_REPLY_no_fence]
  by (simp add: SAMPLE_ELEMENT_def key_defs of_ascii_def no_trace_def sample_env_def
      scripted_def)

subsection \<open>The merge of the glossary\<close>

lemma py_eq_refl [simp]: "py_eq a a"
  by (cases "num_of a") (simp_all add: py_eq_def)

lemma in_set_append [simp]: "in_set x (ns @ ms) \<longleftrightarrow> in_set x ns \<or> in_set x ms"
  by (simp add: in_set_def)

lemma in_set_single [simp]: "in_set x [n] \<longleftrightarrow> py_eq x n"
  by (simp add: in_set_def)

lemma fold_err_append:
  "fold_err f (xs @ ys) s = (case fold_err f xs s of Inl e \<Rightarrow> Inl e | Inr s' \<Rightarrow> fold_err f ys s')"
  by (induction xs arbitrary: s) (auto split: sum.splits)

lemma glossary_add_cases:
  "glossary_add e (names, processed) =
     (case japanesename e of
        None \<Rightarrow> (case e of JObj kvs \<Rightarrow> Inl (KeyError JAPANESENAME) | _ \<Rightarrow> Inl TypeError)
      | Some name \<Rightarrow>
          if \<not> hashable name then Inl TypeError
          else if in_set name names then Inr (names, processed)
          else Inr (names @ [name], processed @ [with_defaults e]))"
  by (cases e) (auto simp: glossary_add_def japanesename_def with_defaults_def Let_def
      split: option.splits)

lemma glossary_add_Inr:
  "glossary_add e (names, processed) = Inr st' \<Longrightarrow>
     valid_entry e \<and>
     st' = (if in_set (the (japanesename e)) names then (names, processed)
            else (names @ [the (japanesename e)], processed @ [with_defaults e]))"
  by (auto simp: glossary_add_cases valid_entry_def split: option.splits if_splits json.splits)

lemma glossary_add_valid:
  "valid_entry e \<Longrightarrow>
     glossary_add e (names, processed) =
       Inr (if in_set (the (japanesename e)) names then (names, processed)
            else (names @ [the (japanesename e)], processed @ [with_defaults e]))"
  by (auto simp: glossary_add_cases valid_entry_def split: option.splits)

text \<open>The inner loop on valid entries: the entries whose name is new, first occurrences only.\<close>

lemma fold_glossary_add_valid:
  "\<forall>e \<in> set es. valid_entry e \<Longrightarrow>
     fold_err glossary_add es (names, processed) =
       Inr (names @ map (\<lambda>e. the (japanesename e))
                      (first_occurrences (filter (\<lambda>e. \<not> in_set (the (japanesename e)) names) es)),
            processed @ map with_defaults
                      (first_occurrences (filter (\<lambda>e. \<not> in_set (the (japanesename e)) names) es)))"
proof (induction es arbitrary: names processed)
  case Nil
  show ?case by simp
next
  case (Cons e es)
  then have ve: "valid_entry e" and ves: "\<forall>e \<in> set es. valid_entry e" by auto
  show ?case
  proof (cases "in_set (the (japanesename e)) names")
    case True
    with Cons.IH[OF ves, of names processed] ve show ?thesis
      by (simp add: glossary_add_valid)
  next
    case False
    have flt: "filter (\<lambda>x. \<not> in_set (the (japanesename x)) (names @ [the (japanesename e)])) es =
          filter (\<lambda>x. \<not> same_japanesename e x)
            (filter (\<lambda>x. \<not> in_set (the (japanesename x)) names) es)"
      using ves ve
      by (induction es)
         (auto simp: same_japanesename_def valid_entry_def split: option.splits)
    let ?n = "the (japanesename e)"
    let ?F = "first_occurrences (filter (\<lambda>x. \<not> in_set (the (japanesename x)) (names @ [?n])) es)"
    from False ve have "fold_err glossary_add (e # es) (names, processed) =
        fold_err glossary_add es (names @ [?n], processed @ [with_defaults e])"
      by (simp add: glossary_add_valid)
    also have "\<dots> = Inr ((names @ [?n]) @ map (\<lambda>e. the (japanesename e)) ?F,
                          (processed @ [with_defaults e]) @ map with_defaults ?F)"
      by (rule Cons.IH[OF ves])
    finally show ?thesis
      unfolding flt using False by simp
  qed
qed

lemma fold_glossary_add_Inr_valid:
  "fold_err glossary_add es st = Inr st' \<Longrightarrow> \<forall>e \<in> set es. valid_entry e"
proof (induction es arbitrary: st)
  case Nil
  show ?case by simp
next
  case (Cons e es)
  obtain names processed where st: "st = (names, processed)" by (cases st)
  from Cons.prems obtain st1 where a: "glossary_add e st = Inr st1"
    and b: "fold_err glossary_add es st1 = Inr st'"
    by (auto split: sum.splits)
  from a st have "valid_entry e" by (auto dest: glossary_add_Inr)
  with Cons.IH[OF b] show ?case by simp
qed

lemma first_occurrences_covers:
  "x \<in> set xs \<Longrightarrow> valid_entry x \<Longrightarrow> \<exists>y \<in> set (first_occurrences xs). same_japanesename y x"
proof (induction xs rule: first_occurrences.induct)
  case 1
  then show ?case by simp
next
  case (2 e es)
  show ?case
  proof (cases "same_japanesename e x")
    case True
    then show ?thesis by auto
  next
    case False
    with 2 have "x \<noteq> e"
      by (auto simp: same_japanesename_def valid_entry_def split: option.splits)
    with 2 False show ?thesis by auto
  qed
qed


lemma in_set_names_iff:
  "in_set x (map (\<lambda>e. the (japanesename e)) ys) \<longleftrightarrow>
     (\<exists>y \<in> set ys. py_eq x (the (japanesename y)))"
  by (simp add: in_set_def list_ex_iff)

lemma fold_batch_Inr:
  "fold_err glossary_batch data st = Inr st' \<Longrightarrow>
     (\<forall>b \<in> set data. \<exists>es. py_iter b = Inr es) \<and>
     fold_err glossary_add (entries data) st = Inr st'"
proof (induction data arbitrary: st)
  case Nil
  then show ?case by (simp add: entries_def)
next
  case (Cons b data)
  from Cons.prems obtain st1 where a: "glossary_batch b st = Inr st1"
    and r: "fold_err glossary_batch data st1 = Inr st'"
    by (auto split: sum.splits)
  from a obtain es where es: "py_iter b = Inr es" and f: "fold_err glossary_add es st = Inr st1"
    by (auto simp: glossary_batch_def split: sum.splits)
  from es have "entries (b # data) = es @ entries data" by (simp add: entries_def)
  with Cons.IH[OF r] es f show ?case by (simp add: fold_err_append)
qed

lemma fold_glossary_add_known:
  "\<forall>e \<in> set es. valid_entry e \<and> in_set (the (japanesename e)) names \<Longrightarrow>
     fold_err glossary_add es (names, processed) = Inr (names, processed)"
  by (induction es) (simp_all add: glossary_add_valid)

lemma fold_batch_known:
  "\<forall>b \<in> set data. \<exists>es. py_iter b = Inr es \<Longrightarrow>
   \<forall>e \<in> set (entries data). valid_entry e \<and> in_set (the (japanesename e)) names \<Longrightarrow>
     fold_err glossary_batch data (names, processed) = Inr (names, processed)"
proof (induction data)
  case Nil
  show ?case by simp
next
  case (Cons b data)
  from Cons.prems(1) obtain es where es: "py_iter b = Inr es" by auto
  then have ent: "entries (b # data) = es @ entries data" by (simp add: entries_def)
  with Cons.prems(2) have "\<forall>e \<in> set es. valid_entry e \<and> in_set (the (japanesename e)) names"
    by simp
  then have "glossary_batch b (names, processed) = Inr (names, processed)"
    using es by (simp add: glossary_batch_def fold_glossary_add_known)
  moreover from Cons.prems ent
  have "fold_err glossary_batch data (names, processed) = Inr (names, processed)"
    by (intro Cons.IH) auto
  ultimately show ?case by simp
qed

lemma fold_batch_result:
  assumes "fold_err glossary_batch data ([], []) = Inr (names, processed)"
  shows "names = map (\<lambda>e. the (japanesename e)) (first_occurrences (entries data))"
    and "processed = map with_defaults (first_occurrences (entries data))"
    and "\<forall>e \<in> set (entries data). valid_entry e \<and> in_set (the (japanesename e)) names"
proof -
  from fold_batch_Inr[OF assms]
  have f: "fold_err glossary_add (entries data) ([], []) = Inr (names, processed)" by simp
  then have v: "\<forall>e \<in> set (entries data). valid_entry e" by (rule fold_glossary_add_Inr_valid)
  from fold_glossary_add_valid[OF v, of "[]" "[]"] f
  show n: "names = map (\<lambda>e. the (japanesename e)) (first_occurrences (entries data))"
    and "processed = map with_defaults (first_occurrences (entries data))"
    by (simp_all add: in_set_def)
  show "\<forall>e \<in> set (entries data). valid_entry e \<and> in_set (the (japanesename e)) names"
  proof
    fix e assume e: "e \<in> set (entries data)"
    with v have ve: "valid_entry e" by simp
    from first_occurrences_covers[OF e ve]
    obtain y where y: "y \<in> set (first_occurrences (entries data))" "same_japanesename y e"
      by blast
    from y(2) ve have "py_eq (the (japanesename e)) (the (japanesename y))"
      by (auto simp: same_japanesename_def valid_entry_def split: option.splits)
    with y(1) have "in_set (the (japanesename e)) names"
      unfolding n in_set_names_iff by blast
    with ve show "valid_entry e \<and> in_set (the (japanesename e)) names" by simp
  qed
qed

lemmas glossary_eval = glossary_merge_def glossary_batch_def glossary_add_def in_set_def
  py_eq_def JAPANESENAME_def GENDER_def ISCHAR_def ACTUALNAME_def of_ascii_def Let_def
  TARO_KEY_def HANAKO_JP_def

lemma SAMPLE_GLOSSARY_merged:
  "glossary_merge SAMPLE_GLOSSARY =
     Inr [JObj [(JAPANESENAME, JStr TARO_KEY), (ACTUALNAME, JStr (of_ascii ''Taro'')),
                (GENDER, JNull), (ISCHAR, JBool False)],
          JObj [(JAPANESENAME, JStr HANAKO_JP), (ACTUALNAME, JStr (of_ascii ''Hanako'')),
                (GENDER, JStr (of_ascii ''female'')), (ISCHAR, JBool False)]]"
  by (simp add: SAMPLE_GLOSSARY_def glossary_eval)

text \<open>
  C8: merging a list of batches twice over gives what merging it once gives, the same
  entries with the same values, or the same exception; and the merged glossary is, in
  the order of the batches, the first entry of every name with the defaults for
  \<open>gender\<close> and \<open>ischar\<close>, the later entries of a name being dropped.
\<close>

theorem glossary_merge_first_wins_idempotent:
  "glossary_merge (data @ data) = glossary_merge data \<and>
   (\<forall>out. glossary_merge data = Inr out \<longrightarrow>
      out = map with_defaults (first_occurrences (entries data)))"
proof (cases "fold_err glossary_batch data ([], [])")
  case (Inl err)
  then show ?thesis by (simp add: glossary_merge_def fold_err_append)
next
  case (Inr st)
  obtain names processed where st: "st = (names, processed)" by (cases st)
  from Inr st have once: "fold_err glossary_batch data ([], []) = Inr (names, processed)" by simp
  from fold_batch_Inr[OF once] have it: "\<forall>b \<in> set data. \<exists>es. py_iter b = Inr es" by simp
  from fold_batch_known[OF it fold_batch_result(3)[OF once], of processed]
  have "fold_err glossary_batch (data @ data) ([], []) = Inr (names, processed)"
    using once by (simp add: fold_err_append)
  with once fold_batch_result(2)[OF once] show ?thesis
    by (simp add: glossary_merge_def)
qed

theorem glossary_merge_first_wins_idempotent_witness:
  "glossary_merge (SAMPLE_GLOSSARY @ SAMPLE_GLOSSARY) =
     Inr [JObj [(JAPANESENAME, JStr TARO_KEY), (ACTUALNAME, JStr (of_ascii ''Taro'')),
                (GENDER, JNull), (ISCHAR, JBool False)],
          JObj [(JAPANESENAME, JStr HANAKO_JP), (ACTUALNAME, JStr (of_ascii ''Hanako'')),
                (GENDER, JStr (of_ascii ''female'')), (ISCHAR, JBool False)]] \<and>
   map with_defaults (first_occurrences (entries SAMPLE_GLOSSARY)) =
     [JObj [(JAPANESENAME, JStr TARO_KEY), (ACTUALNAME, JStr (of_ascii ''Taro'')),
                (GENDER, JNull), (ISCHAR, JBool False)],
          JObj [(JAPANESENAME, JStr HANAKO_JP), (ACTUALNAME, JStr (of_ascii ''Hanako'')),
                (GENDER, JStr (of_ascii ''female'')), (ISCHAR, JBool False)]]"
  using glossary_merge_first_wins_idempotent[of SAMPLE_GLOSSARY] SAMPLE_GLOSSARY_merged
  by simp

end
